theory Spec2Isabelle
  imports Complex_Main "HOL-Library.Multiset"
begin

section \<open>Tables\<close>

text \<open>
  The notebook keeps its data in one pandas DataFrame, \<^verbatim>\<open>table\<close>, which the cells
  update in place. A text cell of the input file is a string or missing (pandas' NaN);
  a numeric cell is a float or NaN. Both are options, \<open>None\<close> standing for NaN.
\<close>

type_synonym cell = "string option"

type_synonym float = "real option"

text \<open>A frame is the list of its rows in order, each with its index label.\<close>

type_synonym 'r frame = "(nat \<times> 'r) list"

text \<open>
  What \<^verbatim>\<open>pd.read_table('B3DB_classification.tsv', sep='\t')\<close> returns: the header
  line and one list of cells per data line. A line with fewer fields than the header
  is padded with NaN by the reader.
\<close>

record raw_table =
  columns :: "string list"
  cells :: "cell list list"

text \<open>
  The exceptions the cells can raise. A KeyError of a column selection names the missing
  columns; \<open>RowKeyError\<close> is the KeyError of a row label. TypeError and ArgumentError
  carry the index label of the row at which RDKit raised.
\<close>

datatype error =
    KeyError "string list"
  | RowKeyError nat
  | TypeError nat
  | ArgumentError nat
  | ValueError

section \<open>Reading the data (cell 5)\<close>

text \<open>
  \<^verbatim>\<open>
  table = tmp.loc[:,('compound_name', 'IUPAC_name', 'SMILES', 'BBB+/BBB-')]
  table = table.dropna(subset="BBB+/BBB-")
  table.reset_index(drop=True, inplace=True)

  table.loc[:,'BBB_class'] = 0
  table.loc[table['BBB+/BBB-'] == 'BBB+', 'BBB_class'] = 1
  \<close>
\<close>

record compound =
  compound_name :: cell
  IUPAC_name :: cell
  SMILES :: cell
  BBB_label :: cell

record labelled = compound +
  BBB_class :: int

definition required_columns :: "string list" where
  "required_columns = [''compound_name'', ''IUPAC_name'', ''SMILES'', ''BBB+/BBB-'']"

fun position :: "string \<Rightarrow> string list \<Rightarrow> nat option" where
  "position c [] = None"
| "position c (d # ds) = (if c = d then Some 0 else map_option Suc (position c ds))"

definition field :: "string list \<Rightarrow> cell list \<Rightarrow> string \<Rightarrow> cell" where
  "field cols row c =
     (case position c cols of
        None \<Rightarrow> None
      | Some p \<Rightarrow> if p < length row then row ! p else None)"

definition select_row :: "string list \<Rightarrow> cell list \<Rightarrow> compound" where
  "select_row cols row =
     \<lparr>compound_name = field cols row ''compound_name'',
      IUPAC_name = field cols row ''IUPAC_name'',
      SMILES = field cols row ''SMILES'',
      BBB_label = field cols row ''BBB+/BBB-''\<rparr>"

definition enumerate_rows :: "'r list \<Rightarrow> 'r frame" where
  "enumerate_rows rs = zip [0..<length rs] rs"

text \<open>
  \<^verbatim>\<open>tmp.loc[:, (...)]\<close>: a column that the file does not have raises KeyError,
  which names the missing columns.
\<close>

definition loc_columns :: "raw_table \<Rightarrow> error + compound frame" where
  "loc_columns tmp =
     (case filter (\<lambda>c. c \<notin> set (columns tmp)) required_columns of
        [] \<Rightarrow> Inr (enumerate_rows (map (select_row (columns tmp)) (cells tmp)))
      | c # cs \<Rightarrow> Inl (KeyError (c # cs)))"

text \<open>\<^verbatim>\<open>dropna(subset="BBB+/BBB-")\<close> keeps the index labels of the rows it keeps.\<close>

definition dropna :: "compound frame \<Rightarrow> compound frame" where
  "dropna t = filter (\<lambda>(i, r). BBB_label r \<noteq> None) t"

definition reset_index :: "'r frame \<Rightarrow> 'r frame" where
  "reset_index t = enumerate_rows (map snd t)"

text \<open>
  \<^verbatim>\<open>table.loc[:,'BBB_class'] = 0\<close> creates the column. In a table without rows
  pandas raises instead: through \<^verbatim>\<open>.loc\<close> it does not create a column from a scalar
  in a frame that has no row (ValueError: cannot set a frame with no defined index and
  a scalar).
\<close>

definition new_BBB_class :: "compound frame \<Rightarrow> error + labelled frame" where
  "new_BBB_class t =
     (if t = [] then Inl ValueError
      else Inr (map (\<lambda>(i, r). (i, \<lparr>compound_name = compound_name r,
                                     IUPAC_name = IUPAC_name r, SMILES = SMILES r,
                                     BBB_label = BBB_label r, BBB_class = 0\<rparr>)) t))"

definition mark_permeant :: "labelled frame \<Rightarrow> labelled frame" where
  "mark_permeant t =
     map (\<lambda>(i, r). (i, if BBB_label r = Some ''BBB+'' then r\<lparr>BBB_class := 1\<rparr> else r)) t"

definition loader :: "raw_table \<Rightarrow> error + labelled frame" where
  "loader tmp =
     (case loc_columns tmp of
        Inl e \<Rightarrow> Inl e
      | Inr t \<Rightarrow>
          (case new_BBB_class (reset_index (dropna t)) of
             Inl e \<Rightarrow> Inl e
           | Inr t' \<Rightarrow> Inr (mark_permeant t')))"

text \<open>
  The rows of the file that have a label, and the row of the loaded table that cell 5
  makes of such a row; the loaded table is shown below to consist of these.
\<close>

definition kept_rows :: "raw_table \<Rightarrow> compound list" where
  "kept_rows tmp =
     filter (\<lambda>r. BBB_label r \<noteq> None) (map (select_row (columns tmp)) (cells tmp))"

definition loaded_row :: "compound \<Rightarrow> labelled" where
  "loaded_row r =
     \<lparr>compound_name = compound_name r, IUPAC_name = IUPAC_name r, SMILES = SMILES r,
      BBB_label = BBB_label r,
      BBB_class = (if BBB_label r = Some ''BBB+'' then 1 else 0)\<rparr>"

text \<open>The four input columns of a row of the loaded table.\<close>

definition input_part :: "labelled \<Rightarrow> compound" where
  "input_part r =
     \<lparr>compound_name = compound_name r, IUPAC_name = IUPAC_name r,
      SMILES = SMILES r, BBB_label = BBB_label r\<rparr>"

section \<open>Molecular descriptors (cell 7)\<close>

text \<open>
  \<^verbatim>\<open>
  for i in table.index:
      mol=Chem.MolFromSmiles(table.loc[i,'SMILES'])
      table.loc[i,'MolWt']=Descriptors.ExactMolWt (mol)
      table.loc[i,'TPSA']=Chem.rdMolDescriptors.CalcTPSA(mol)
      table.loc[i,'nRotB']=Descriptors.NumRotatableBonds (mol)
      table.loc[i,'HBD']=Descriptors.NumHDonors(mol)
      table.loc[i,'HBA']=Descriptors.NumHAcceptors(mol)
      table.loc[i,'LogP']=Descriptors.MolLogP(mol)
  \<close>
  RDKit is an external library; its functions are parameters of the model.
  \<^verbatim>\<open>MolFromSmiles\<close> returns a molecule, or None for a string that it cannot parse.
  Given a value that is not a string (the NaN of a missing cell) it raises a TypeError;
  a descriptor function given None instead of a molecule raises an ArgumentError.
\<close>

record 'mol rdkit =
  MolFromSmiles :: "string \<Rightarrow> 'mol option"
  ExactMolWt :: "'mol \<Rightarrow> real"
  CalcTPSA :: "'mol \<Rightarrow> real"
  NumRotatableBonds :: "'mol \<Rightarrow> nat"
  NumHDonors :: "'mol \<Rightarrow> nat"
  NumHAcceptors :: "'mol \<Rightarrow> nat"
  MolLogP :: "'mol \<Rightarrow> real"

text \<open>A row of the table once the six descriptor columns exist.\<close>

record featured = labelled +
  MolWt :: float
  TPSA :: float
  nRotB :: float
  HBD :: float
  HBA :: float
  LogP :: float

text \<open>The row of a table whose descriptor columns have just been created: NaN in all six.\<close>

definition no_descriptors :: "labelled \<Rightarrow> featured" where
  "no_descriptors r =
     \<lparr>compound_name = compound_name r, IUPAC_name = IUPAC_name r,
      SMILES = SMILES r, BBB_label = BBB_label r, BBB_class = BBB_class r,
      MolWt = None, TPSA = None, nRotB = None, HBD = None, HBA = None, LogP = None\<rparr>"

definition set_descriptors :: "'mol rdkit \<Rightarrow> 'mol \<Rightarrow> featured \<Rightarrow> featured" where
  "set_descriptors k mol r =
     r\<lparr>MolWt := Some (ExactMolWt k mol),
       TPSA := Some (CalcTPSA k mol),
       nRotB := Some (real (NumRotatableBonds k mol)),
       HBD := Some (real (NumHDonors k mol)),
       HBA := Some (real (NumHAcceptors k mol)),
       LogP := Some (MolLogP k mol)\<rparr>"

text \<open>
  The body of the loop on the row it reads. An exception is raised by the parser or by
  the first descriptor call, before any assignment to the row; on a molecule the
  descriptor functions return their values, and the six assignments follow in order.
\<close>

definition row_step :: "'mol rdkit \<Rightarrow> nat \<Rightarrow> featured \<Rightarrow> error + featured" where
  "row_step k i r =
     (case SMILES r of
        None \<Rightarrow> Inl (TypeError i)
      | Some s \<Rightarrow>
          (case MolFromSmiles k s of
             None \<Rightarrow> Inl (ArgumentError i)
           | Some mol \<Rightarrow> Inr (set_descriptors k mol r)))"

definition update_row :: "nat \<Rightarrow> 'r \<Rightarrow> 'r frame \<Rightarrow> 'r frame" where
  "update_row i r' t = map (\<lambda>(j, r). if j = i then (j, r') else (j, r)) t"

text \<open>
  The table that cell 7 works on. The loader leaves it without descriptor columns
  (\<open>Loaded\<close>). An assignment \<^verbatim>\<open>table.loc[i,'MolWt'] = v\<close> to a column that does not
  exist creates the column, with NaN in every other row. The six assignments of one
  iteration follow one another with no exception between them, so at the end of an
  iteration, and when an exception ends the loop, the table has either none of the six
  columns or all of them (\<open>Described\<close>).
\<close>

datatype table = Loaded "labelled frame" | Described "featured frame"

fun descriptor_step :: "'mol rdkit \<Rightarrow> nat \<Rightarrow> table \<Rightarrow> error + table" where
  "descriptor_step k i (Loaded t) =
     (case map_of t i of
        None \<Rightarrow> Inl (RowKeyError i)
      | Some r \<Rightarrow>
          (case row_step k i (no_descriptors r) of
             Inl e \<Rightarrow> Inl e
           | Inr r' \<Rightarrow>
               Inr (Described (update_row i r' (map (\<lambda>(j, r). (j, no_descriptors r)) t)))))"
| "descriptor_step k i (Described t) =
     (case map_of t i of
        None \<Rightarrow> Inl (RowKeyError i)
      | Some r \<Rightarrow>
          (case row_step k i r of
             Inl e \<Rightarrow> Inl e
           | Inr r' \<Rightarrow> Inr (Described (update_row i r' t))))"

text \<open>
  The loop stops at the first exception. The table is updated in place, so what the
  earlier iterations wrote stays: the result of a failed run is the exception together
  with the table as it was left.
\<close>

fun descriptor_loop ::
  "'mol rdkit \<Rightarrow> nat list \<Rightarrow> table \<Rightarrow> (error \<times> table) + table" where
  "descriptor_loop k [] t = Inr t"
| "descriptor_loop k (i # js) t =
     (case descriptor_step k i t of
        Inl e \<Rightarrow> Inl (e, t)
      | Inr t' \<Rightarrow> descriptor_loop k js t')"

definition extract_descriptors ::
  "'mol rdkit \<Rightarrow> labelled frame \<Rightarrow> (error \<times> table) + table" where
  "extract_descriptors k table = descriptor_loop k (map fst table) (Loaded table)"

text \<open>A record fails to parse: its identifier is missing, or the parser returns None for it.\<close>

definition fails_to_parse :: "'mol rdkit \<Rightarrow> 'a compound_scheme \<Rightarrow> bool" where
  "fails_to_parse k r =
     (case SMILES r of None \<Rightarrow> True | Some s \<Rightarrow> MolFromSmiles k s = None)"

definition no_values :: "featured \<Rightarrow> bool" where
  "no_values r \<longleftrightarrow>
     MolWt r = None \<and> TPSA r = None \<and> nRotB r = None \<and>
     HBD r = None \<and> HBA r = None \<and> LogP r = None"

text \<open>The exception that the loop body raises at a record that fails to parse.\<close>

definition row_error :: "nat \<Rightarrow> 'a compound_scheme \<Rightarrow> error" where
  "row_error i r = (case SMILES r of None \<Rightarrow> TypeError i | Some s \<Rightarrow> ArgumentError i)"

text \<open>The row as the loop body leaves it when it does not raise.\<close>

definition computed :: "'mol rdkit \<Rightarrow> featured \<Rightarrow> featured" where
  "computed k r = (case row_step k 0 r of Inl e \<Rightarrow> r | Inr r' \<Rightarrow> r')"

text \<open>
  The loop on a table that has the descriptor columns, read row by row: \<open>done\<close> are
  the rows already visited, \<open>todo\<close> the rows still to visit. It is shown below to be
  what \<open>descriptor_loop\<close> computes on a table with distinct index labels.
\<close>

fun loop_result ::
  "'mol rdkit \<Rightarrow> featured frame \<Rightarrow> featured frame \<Rightarrow> (error \<times> table) + table" where
  "loop_result k done [] = Inr (Described done)"
| "loop_result k done ((i, r) # todo) =
     (if fails_to_parse k r then Inl (row_error i r, Described (done @ (i, r) # todo))
      else loop_result k (done @ [(i, computed k r)]) todo)"

section \<open>The x and y arrays (cell 10)\<close>

text \<open>
  \<^verbatim>\<open>
  descriptors_selected = ['MolWt', 'TPSA', 'HBD', 'HBA', 'LogP']

  x = table.loc[:, descriptors_selected].values
  y = table.loc[:, ['BBB_class']].values
  \<close>
\<close>

definition descriptors_selected :: "string list" where
  "descriptors_selected = [''MolWt'', ''TPSA'', ''HBD'', ''HBA'', ''LogP'']"

text \<open>The columns that cell 7 creates, in the order of their creation.\<close>

definition descriptor_columns :: "(string \<times> (featured \<Rightarrow> float)) list" where
  "descriptor_columns =
     [(''MolWt'', MolWt), (''TPSA'', TPSA), (''nRotB'', nRotB),
      (''HBD'', HBD), (''HBA'', HBA), (''LogP'', LogP)]"

text \<open>
  Selecting columns by name raises KeyError for a name that is no column; the error
  names the missing ones. A table that the loop has not yet assigned to has none of
  the descriptor columns.
\<close>

fun loc_values :: "string list \<Rightarrow> table \<Rightarrow> error + float list list" where
  "loc_values names (Loaded t) =
     (case names of
        [] \<Rightarrow> Inr (map (\<lambda>(i, r). []) t)
      | c # cs \<Rightarrow> Inl (KeyError (c # cs)))"
| "loc_values names (Described t) =
     (case filter (\<lambda>c. map_of descriptor_columns c = None) names of
        [] \<Rightarrow>
          Inr (map (\<lambda>(i, r).
                 concat (map (\<lambda>c. case map_of descriptor_columns c of
                                     None \<Rightarrow> [] | Some f \<Rightarrow> [f r]) names)) t)
      | c # cs \<Rightarrow> Inl (KeyError (c # cs)))"

definition x_values :: "table \<Rightarrow> error + float list list" where
  "x_values t = loc_values descriptors_selected t"

text \<open>\<open>y\<close> is an array with one column; it is held as the list of its entries.\<close>

fun y_values :: "table \<Rightarrow> int list" where
  "y_values (Loaded t) = map (\<lambda>(i, r). BBB_class r) t"
| "y_values (Described t) = map (\<lambda>(i, r). BBB_class r) t"

section \<open>Splitting (cell 12)\<close>

text \<open>
  \<^verbatim>\<open>
  x_train, x_test, y_train, y_test = train_test_split(x, y, test_size = 0.2, random_state=1)

  x_train, x_valid, y_train, y_valid = train_test_split(x_train, y_train, test_size = 0.25, random_state=1)
  \<close>
  \<^verbatim>\<open>train_test_split\<close> is scikit-learn's. With a float \<^verbatim>\<open>test_size\<close> and no
  \<^verbatim>\<open>train_size\<close> it takes \<open>n_test = ceil(test_size * n)\<close> and \<open>n_train = n - n_test\<close>,
  raises ValueError when the arrays differ in length or the training part would be
  empty, draws a permutation of \<open>range(n)\<close> from a generator seeded by
  \<^verbatim>\<open>random_state\<close>, and returns the rows at \<open>permutation[n_test : n_test + n_train]\<close> as
  the training part and those at \<open>permutation[:n_test]\<close> as the test part. The
  permutation drawn for \<open>n\<close> rows under seed 1 is the parameter \<open>perm\<close>; the test
  sizes 0.2 and 0.25 are the reals 1/5 and 1/4.
\<close>

definition train_test_split ::
  "(nat \<Rightarrow> nat list) \<Rightarrow> real \<Rightarrow> 'a list \<Rightarrow> 'b list \<Rightarrow>
   error + ('a list \<times> 'a list \<times> 'b list \<times> 'b list)" where
  "train_test_split perm test_size xs ys =
     (let n = length xs;
          n_test = nat \<lceil>test_size * real n\<rceil>;
          n_train = n - n_test;
          ind_test = take n_test (perm n);
          ind_train = take n_train (drop n_test (perm n))
      in if length ys \<noteq> n \<or> n_train = 0 then Inl ValueError
         else Inr (map ((!) xs) ind_train, map ((!) xs) ind_test,
                   map ((!) ys) ind_train, map ((!) ys) ind_test))"

record ('a, 'b) split =
  x_train :: "'a list"
  x_valid :: "'a list"
  x_test :: "'a list"
  y_train :: "'b list"
  y_valid :: "'b list"
  y_test :: "'b list"

definition splitter :: "(nat \<Rightarrow> nat list) \<Rightarrow> 'a list \<Rightarrow> 'b list \<Rightarrow> error + ('a, 'b) split" where
  "splitter perm x y =
     (case train_test_split perm (1 / 5) x y of
        Inl e \<Rightarrow> Inl e
      | Inr (x_train1, x_test1, y_train1, y_test1) \<Rightarrow>
          (case train_test_split perm (1 / 4) x_train1 y_train1 of
             Inl e \<Rightarrow> Inl e
           | Inr (x_train2, x_valid2, y_train2, y_valid2) \<Rightarrow>
               Inr \<lparr>x_train = x_train2, x_valid = x_valid2, x_test = x_test1,
                    y_train = y_train2, y_valid = y_valid2, y_test = y_test1\<rparr>))"

text \<open>What the seeded generator guarantees: a permutation of \<open>range(n)\<close> for every \<open>n\<close>.\<close>

definition permutes_ranges :: "(nat \<Rightarrow> nat list) \<Rightarrow> bool" where
  "permutes_ranges perm \<longleftrightarrow> (\<forall>n. mset (perm n) = mset [0..<n])"

section \<open>Confusion matrix and metrics (cells 22 and 24)\<close>

text \<open>
  \<^verbatim>\<open>
  cm = confusion_matrix(y_true,y_pred)
  tn, fp, fn, tp = cm.ravel()
  precision_score(y_true,y_pred)
  recall_score(y_true,y_pred)
  \<close>
  The three functions are scikit-learn's, called with their defaults. Without a
  \<^verbatim>\<open>labels\<close> argument \<^verbatim>\<open>confusion_matrix\<close> takes as labels the values that
  occur at least once in \<^verbatim>\<open>y_true\<close> or \<^verbatim>\<open>y_pred\<close>, in sorted order (so its
  documentation of the parameter says), and entry \<open>(a, b)\<close> of the matrix counts the
  samples of true label \<open>a\<close> predicted as \<open>b\<close>.
\<close>

definition unique_labels :: "int list \<Rightarrow> int list \<Rightarrow> int list" where
  "unique_labels y_true y_pred = sort (remdups (y_true @ y_pred))"

definition count_pairs :: "int list \<Rightarrow> int list \<Rightarrow> int \<Rightarrow> int \<Rightarrow> nat" where
  "count_pairs y_true y_pred a b =
     length (filter (\<lambda>(t, p). t = a \<and> p = b) (zip y_true y_pred))"

definition confusion_matrix :: "int list \<Rightarrow> int list \<Rightarrow> error + nat list list" where
  "confusion_matrix y_true y_pred =
     (if length y_true \<noteq> length y_pred then Inl ValueError
      else let labels = unique_labels y_true y_pred
           in Inr (map (\<lambda>a. map (\<lambda>b. count_pairs y_true y_pred a b) labels) labels))"

definition ravel :: "nat list list \<Rightarrow> nat list" where
  "ravel cm = concat cm"

text \<open>Unpacking into four names raises ValueError unless there are exactly four values.\<close>

fun unpack4 :: "nat list \<Rightarrow> error + (nat \<times> nat \<times> nat \<times> nat)" where
  "unpack4 [tn, fp, fn, tp] = Inr (tn, fp, fn, tp)"
| "unpack4 _ = Inl ValueError"

definition confusion_cells :: "int list \<Rightarrow> int list \<Rightarrow> error + (nat \<times> nat \<times> nat \<times> nat)" where
  "confusion_cells y_true y_pred =
     (case confusion_matrix y_true y_pred of
        Inl e \<Rightarrow> Inl e
      | Inr cm \<Rightarrow> unpack4 (ravel cm))"

text \<open>
  \<^verbatim>\<open>precision_score\<close> and \<^verbatim>\<open>recall_score\<close> with \<^verbatim>\<open>average='binary'\<close>,
  \<^verbatim>\<open>pos_label=1\<close> and \<^verbatim>\<open>zero_division='warn'\<close>, the defaults. They raise ValueError
  when the arrays differ in length, when more than two labels occur, and when two
  labels occur and neither is 1. The metric is the number of samples that are both
  truly and predictedly 1, divided by the number predicted 1 (precision) or truly 1
  (recall); with a zero denominator the result is 0.0 and an UndefinedMetricWarning
  is issued (\<^verbatim>\<open>zero_division='warn'\<close> acts as 0 and also warns, as the
  documentation of the parameter says). The value comes with the flag of the warning.
  The notebook's warning filter ignores FutureWarning only.
\<close>

definition prf_divide :: "nat \<Rightarrow> nat \<Rightarrow> float \<times> bool" where
  "prf_divide numerator denominator =
     (if denominator = 0 then (Some 0, True)
      else (Some (real numerator / real denominator), False))"

definition check_binary :: "int list \<Rightarrow> int list \<Rightarrow> bool" where
  "check_binary y_true y_pred \<longleftrightarrow>
     length y_true = length y_pred \<and>
     (let present = unique_labels y_true y_pred
      in length present \<le> 2 \<and> (1 \<in> set present \<or> length present < 2))"

definition precision_score :: "int list \<Rightarrow> int list \<Rightarrow> error + (float \<times> bool)" where
  "precision_score y_true y_pred =
     (if \<not> check_binary y_true y_pred then Inl ValueError
      else Inr (prf_divide (count_pairs y_true y_pred 1 1)
                           (length (filter (\<lambda>p. p = 1) y_pred))))"

definition recall_score :: "int list \<Rightarrow> int list \<Rightarrow> error + (float \<times> bool)" where
  "recall_score y_true y_pred =
     (if \<not> check_binary y_true y_pred then Inl ValueError
      else Inr (prf_divide (count_pairs y_true y_pred 1 1)
                           (length (filter (\<lambda>t. t = 1) y_true))))"

section \<open>Example inputs\<close>

text \<open>Input files, rows of the loaded table, and a stand-in for RDKit.\<close>

definition example_file :: raw_table where
  "example_file =
     \<lparr>columns = [''SMILES'', ''compound_name'', ''BBB+/BBB-'', ''IUPAC_name''],
      cells = [[Some ''CCO'', Some ''ethanol'', Some ''BBB+'', Some ''ethanol''],
               [Some ''C'', Some ''methane'', None, None],
               [None, Some ''unknown'', Some ''BBB-'']]\<rparr>"

definition unlabelled_file :: raw_table where
  "unlabelled_file =
     \<lparr>columns = [''compound_name'', ''IUPAC_name'', ''SMILES'', ''BBB+/BBB-''],
      cells = [[Some ''water'', Some ''oxidane'', Some ''O'', None]]\<rparr>"

definition missing_column_file :: raw_table where
  "missing_column_file = \<lparr>columns = [''SMILES'', ''BBB+/BBB-''], cells = []\<rparr>"

definition unparseable_file :: raw_table where
  "unparseable_file =
     \<lparr>columns = [''compound_name'', ''IUPAC_name'', ''SMILES'', ''BBB+/BBB-''],
      cells = [[Some ''ethanol'', Some ''ethanol'', Some ''CCO'', Some ''BBB+''],
               [Some ''broken'', None, Some ''C(('', Some ''BBB-''],
               [Some ''garbled'', None, Some ''?'', Some ''BBB+'']]\<rparr>"

definition broken_first_file :: raw_table where
  "broken_first_file =
     \<lparr>columns = [''compound_name'', ''IUPAC_name'', ''SMILES'', ''BBB+/BBB-''],
      cells = [[Some ''broken'', None, Some ''C(('', Some ''BBB-''],
               [Some ''ethanol'', Some ''ethanol'', Some ''CCO'', Some ''BBB+'']]\<rparr>"

definition ethanol :: labelled where
  "ethanol = \<lparr>compound_name = Some ''ethanol'', IUPAC_name = Some ''ethanol'',
              SMILES = Some ''CCO'', BBB_label = Some ''BBB+'', BBB_class = 1\<rparr>"

definition broken :: labelled where
  "broken = \<lparr>compound_name = Some ''broken'', IUPAC_name = None,
             SMILES = Some ''C(('', BBB_label = Some ''BBB-'', BBB_class = 0\<rparr>"

definition garbled :: labelled where
  "garbled = \<lparr>compound_name = Some ''garbled'', IUPAC_name = None,
              SMILES = Some ''?'', BBB_label = Some ''BBB+'', BBB_class = 1\<rparr>"

text \<open>A parser that knows one molecule, with descriptor values for it.\<close>

definition example_rdkit :: "nat rdkit" where
  "example_rdkit =
     \<lparr>MolFromSmiles = (\<lambda>s. if s = ''CCO'' then Some 0 else None),
      ExactMolWt = (\<lambda>m. 46), CalcTPSA = (\<lambda>m. 20),
      NumRotatableBonds = (\<lambda>m. 3), NumHDonors = (\<lambda>m. 1), NumHAcceptors = (\<lambda>m. 2),
      MolLogP = (\<lambda>m. 5)\<rparr>"

definition ethanol_file :: raw_table where
  "ethanol_file =
     \<lparr>columns = [''compound_name'', ''IUPAC_name'', ''SMILES'', ''BBB+/BBB-''],
      cells = [[Some ''ethanol'', Some ''ethanol'', Some ''CCO'', Some ''BBB+'']]\<rparr>"

definition ethanol_featured :: featured where
  "ethanol_featured =
     \<lparr>compound_name = Some ''ethanol'', IUPAC_name = Some ''ethanol'',
      SMILES = Some ''CCO'', BBB_label = Some ''BBB+'', BBB_class = 1,
      MolWt = Some 46, TPSA = Some 20, nRotB = Some 3, HBD = Some 1, HBA = Some 2,
      LogP = Some 5\<rparr>"

text \<open>Ten samples with six true positives, one false positive, two false negatives
  and one true negative.\<close>

definition ten_true :: "int list" where
  "ten_true = [1, 1, 1, 1, 1, 1, 1, 1, 0, 0]"

definition ten_pred :: "int list" where
  "ten_pred = [1, 1, 1, 1, 1, 1, 0, 0, 1, 0]"

section \<open>Properties of the loader\<close>

lemma loc_columns_present:
  "set required_columns \<subseteq> set (columns tmp) \<Longrightarrow>
   loc_columns tmp = Inr (enumerate_rows (map (select_row (columns tmp)) (cells tmp)))"
proof -
  assume "set required_columns \<subseteq> set (columns tmp)"
  then have "filter (\<lambda>c. c \<notin> set (columns tmp)) required_columns = []"
    by (auto simp: filter_empty_conv)
  then show ?thesis
    by (simp add: loc_columns_def)
qed

lemma map_fst_enumerate_rows: "map fst (enumerate_rows rs) = [0..<length rs]"
  by (simp add: enumerate_rows_def)

lemma map_snd_enumerate_rows: "map snd (enumerate_rows rs) = rs"
  by (simp add: enumerate_rows_def)

lemma map_snd_dropna:
  "map snd (dropna (enumerate_rows rs)) = filter (\<lambda>r. BBB_label r \<noteq> None) rs"
proof -
  have "map snd (filter (\<lambda>(i, r). BBB_label r \<noteq> None) t)
        = filter (\<lambda>r. BBB_label r \<noteq> None) (map snd t)" for t :: "compound frame"
    by (induction t) auto
  then show ?thesis
    by (simp add: dropna_def map_snd_enumerate_rows)
qed

lemma map_enumerate_rows:
  "map (\<lambda>(i, r). (i, f r)) (enumerate_rows rs) = enumerate_rows (map f rs)"
  by (simp add: enumerate_rows_def zip_map2)

lemma loader_absent:
  assumes "\<not> set required_columns \<subseteq> set (columns tmp)"
  shows "loader tmp = Inl (KeyError (filter (\<lambda>c. c \<notin> set (columns tmp)) required_columns))"
proof -
  from assms have "filter (\<lambda>c. c \<notin> set (columns tmp)) required_columns \<noteq> []"
    by (auto simp: filter_empty_conv)
  then show ?thesis
    by (auto simp: loader_def loc_columns_def split: list.splits)
qed

lemma reset_dropna:
  "reset_index (dropna (enumerate_rows (map (select_row (columns tmp)) (cells tmp))))
   = enumerate_rows (kept_rows tmp)"
  by (simp only: reset_index_def map_snd_dropna kept_rows_def)

lemma loader_empty:
  assumes "set required_columns \<subseteq> set (columns tmp)" and "kept_rows tmp = []"
  shows "loader tmp = Inl ValueError"
proof -
  have "enumerate_rows (kept_rows tmp) = []"
    using assms(2) by (simp add: enumerate_rows_def)
  then have "new_BBB_class (reset_index (dropna
      (enumerate_rows (map (select_row (columns tmp)) (cells tmp))))) = Inl ValueError"
    by (simp add: reset_dropna new_BBB_class_def)
  then show ?thesis
    by (simp add: loader_def loc_columns_present [OF assms(1)])
qed

lemma loader_present:
  assumes "set required_columns \<subseteq> set (columns tmp)" and "kept_rows tmp \<noteq> []"
  shows "loader tmp = Inr (enumerate_rows (map loaded_row (kept_rows tmp)))"
proof -
  let ?zero = "\<lambda>r. \<lparr>compound_name = compound_name r, IUPAC_name = IUPAC_name r,
                     SMILES = SMILES r, BBB_label = BBB_label r, BBB_class = 0\<rparr>"
  let ?mark = "\<lambda>r :: labelled. if BBB_label r = Some ''BBB+'' then r\<lparr>BBB_class := 1\<rparr> else r"
  have ne: "enumerate_rows (kept_rows tmp) \<noteq> []"
    using assms(2) by (simp add: enumerate_rows_def)
  have "new_BBB_class (enumerate_rows (kept_rows tmp))
        = Inr (map (\<lambda>(i, r). (i, ?zero r)) (enumerate_rows (kept_rows tmp)))"
    using ne by (simp add: new_BBB_class_def)
  also have "\<dots> = Inr (enumerate_rows (map ?zero (kept_rows tmp)))"
    by (simp only: map_enumerate_rows)
  finally have z: "new_BBB_class (enumerate_rows (kept_rows tmp))
        = Inr (enumerate_rows (map ?zero (kept_rows tmp)))" .
  have "mark_permeant (enumerate_rows (map ?zero (kept_rows tmp)))
        = enumerate_rows (map ?mark (map ?zero (kept_rows tmp)))"
    unfolding mark_permeant_def by (rule map_enumerate_rows)
  also have "map ?mark (map ?zero (kept_rows tmp)) = map loaded_row (kept_rows tmp)"
    by (simp add: loaded_row_def)
  finally have m: "mark_permeant (enumerate_rows (map ?zero (kept_rows tmp)))
        = enumerate_rows (map loaded_row (kept_rows tmp))" .
  have "new_BBB_class (reset_index (dropna
      (enumerate_rows (map (select_row (columns tmp)) (cells tmp)))))
        = Inr (enumerate_rows (map ?zero (kept_rows tmp)))"
    by (simp only: reset_dropna z)
  then show ?thesis
    by (simp add: loader_def loc_columns_present [OF assms(1)] m)
qed

lemma loader_Inr:
  assumes "loader tmp = Inr table"
  shows "set required_columns \<subseteq> set (columns tmp)" and "kept_rows tmp \<noteq> []"
    and "table = enumerate_rows (map loaded_row (kept_rows tmp))"
proof -
  show c: "set required_columns \<subseteq> set (columns tmp)"
    using loader_absent [of tmp] assms by auto
  show k: "kept_rows tmp \<noteq> []"
    using loader_empty [OF c] assms by auto
  show "table = enumerate_rows (map loaded_row (kept_rows tmp))"
    using loader_present [OF c k] assms by simp
qed

lemma loader_index:
  assumes "loader tmp = Inr table"
  shows "map fst table = [0..<length table]"
  by (simp add: loader_Inr(3) [OF assms] enumerate_rows_def)

lemma input_part_loaded_row: "input_part (loaded_row r) = r"
  by (simp add: input_part_def loaded_row_def)

lemma loader_nonempty:
  assumes "loader tmp = Inr table"
  shows "table \<noteq> []"
  using loader_Inr(2,3) [OF assms] by (simp add: enumerate_rows_def)

section \<open>Properties of the descriptor loop\<close>

lemma row_step_fails: "fails_to_parse k r \<Longrightarrow> row_step k i r = Inl (row_error i r)"
  by (auto simp: fails_to_parse_def row_step_def row_error_def split: option.splits)

lemma row_step_parses: "\<not> fails_to_parse k r \<Longrightarrow> row_step k i r = Inr (computed k r)"
  by (auto simp: fails_to_parse_def row_step_def computed_def split: option.splits)

lemma fails_no_descriptors [simp]: "fails_to_parse k (no_descriptors r) = fails_to_parse k r"
  by (simp add: fails_to_parse_def no_descriptors_def)

lemma row_error_no_descriptors [simp]: "row_error j (no_descriptors r) = row_error j r"
  by (simp add: row_error_def no_descriptors_def)

lemma no_values_no_descriptors: "no_values (no_descriptors r)"
  by (simp add: no_values_def no_descriptors_def)

lemma map_of_middle:
  "i \<notin> fst ` set done \<Longrightarrow> map_of (done @ (i, r) # rest) i = Some r"
  by (induction "done") auto

lemma update_row_middle:
  "distinct (map fst (done @ (i, r) # rest)) \<Longrightarrow>
   update_row i r' (done @ (i, r) # rest) = done @ (i, r') # rest"
proof -
  assume d: "distinct (map fst (done @ (i, r) # rest))"
  have "map (\<lambda>(j, r). if j = i then (j, r') else (j, r)) t = t" if "i \<notin> fst ` set t"
    for t :: "'a frame"
    using that by (induction t) auto
  with d show ?thesis
    by (auto simp: update_row_def)
qed

lemma map_fst_no_descriptors:
  "map fst (map (\<lambda>(j, r). (j, no_descriptors r)) t) = map fst t"
  by (induction t) auto

lemma descriptor_loop_char:
  "distinct (map fst (done @ todo)) \<Longrightarrow>
   descriptor_loop k (map fst todo) (Described (done @ todo)) = loop_result k done todo"
proof (induction todo arbitrary: "done")
  case Nil
  then show ?case by simp
next
  case (Cons a todo)
  obtain i r where a: "a = (i, r)" by (cases a)
  from Cons.prems a have fresh: "i \<notin> fst ` set done"
    by auto
  have m: "map_of (done @ (i, r) # todo) i = Some r"
    by (rule map_of_middle [OF fresh])
  show ?case
  proof (cases "fails_to_parse k r")
    case True
    have "descriptor_step k i (Described (done @ (i, r) # todo)) = Inl (row_error i r)"
      by (simp add: m row_step_fails [OF True] del: map_of_append)
    then show ?thesis
      by (simp add: a True)
  next
    case False
    have d: "distinct (map fst ((done @ [(i, computed k r)]) @ todo))"
      using Cons.prems a by auto
    have "descriptor_step k i (Described (done @ (i, r) # todo))
          = Inr (Described (done @ (i, computed k r) # todo))"
      using Cons.prems a
      by (simp add: m row_step_parses [OF False] update_row_middle del: map_of_append)
    then have "descriptor_loop k (map fst (a # todo)) (Described (done @ a # todo))
        = descriptor_loop k (map fst todo) (Described ((done @ [(i, computed k r)]) @ todo))"
      by (simp add: a)
    also have "\<dots> = loop_result k (done @ [(i, computed k r)]) todo"
      by (rule Cons.IH [OF d])
    finally show ?thesis
      by (simp add: a False)
  qed
qed

text \<open>
  The loop on the loaded table: the first record either raises, and leaves the table
  without descriptor columns, or creates the columns.
\<close>

lemma extract_descriptors_Nil: "extract_descriptors k [] = Inr (Loaded [])"
  by (simp add: extract_descriptors_def)

lemma extract_descriptors_Cons:
  assumes "distinct (map fst ((i, r) # rest))"
  shows "extract_descriptors k ((i, r) # rest) =
     (if fails_to_parse k r then Inl (row_error i r, Loaded ((i, r) # rest))
      else loop_result k [(i, computed k (no_descriptors r))]
             (map (\<lambda>(j, r). (j, no_descriptors r)) rest))"
proof (cases "fails_to_parse k r")
  case True
  have "descriptor_step k i (Loaded ((i, r) # rest)) = Inl (row_error i r)"
    using row_step_fails [of k "no_descriptors r" i] True by simp
  then show ?thesis
    by (simp add: extract_descriptors_def True)
next
  case False
  let ?nd = "\<lambda>(j, r). (j, no_descriptors r)"
  let ?c = "computed k (no_descriptors r)"
  have d': "distinct (map fst ([] @ (i, no_descriptors r) # map ?nd rest))"
    using assms by (simp only: append_Nil list.map fst_conv map_fst_no_descriptors)
  have u: "update_row i ?c (map ?nd ((i, r) # rest)) = (i, ?c) # map ?nd rest"
    using update_row_middle [OF d', of ?c] by simp
  have "row_step k i (no_descriptors r) = Inr ?c"
    using row_step_parses [of k "no_descriptors r" i] False by simp
  then have "descriptor_step k i (Loaded ((i, r) # rest)) = Inr (Described ((i, ?c) # map ?nd rest))"
    using u by simp
  then have "extract_descriptors k ((i, r) # rest)
      = descriptor_loop k (map fst rest) (Described ([(i, ?c)] @ map ?nd rest))"
    by (simp add: extract_descriptors_def)
  also have "\<dots> = descriptor_loop k (map fst (map ?nd rest)) (Described ([(i, ?c)] @ map ?nd rest))"
    by (simp only: map_fst_no_descriptors)
  also have "\<dots> = loop_result k [(i, ?c)] (map ?nd rest)"
  proof (rule descriptor_loop_char)
    show "distinct (map fst ([(i, ?c)] @ map ?nd rest))"
      using assms
      by (simp only: append_Cons append_Nil list.map fst_conv map_fst_no_descriptors)
  qed
  finally show ?thesis
    using False by simp
qed

lemma loop_result_all_parse:
  "\<forall>(i, r) \<in> set todo. \<not> fails_to_parse k r \<Longrightarrow>
   loop_result k done todo = Inr (Described (done @ map (\<lambda>(i, r). (i, computed k r)) todo))"
proof (induction todo arbitrary: "done")
  case Nil
  then show ?case by simp
next
  case (Cons a todo)
  obtain i r where a: "a = (i, r)" by (cases a)
  from Cons.prems a have 1: "\<not> fails_to_parse k r"
    and 2: "\<forall>(i, r) \<in> set todo. \<not> fails_to_parse k r"
    by auto
  show ?case
    by (simp add: a 1 Cons.IH [OF 2])
qed

lemma loop_result_first_failure:
  "\<forall>(l, q) \<in> set pre. \<not> fails_to_parse k q \<Longrightarrow> fails_to_parse k r' \<Longrightarrow>
   loop_result k done (pre @ (j, r') # post)
     = Inl (row_error j r',
            Described (done @ map (\<lambda>(l, q). (l, computed k q)) pre @ (j, r') # post))"
proof (induction pre arbitrary: "done")
  case Nil
  then show ?case by simp
next
  case (Cons a pre)
  obtain i r where a: "a = (i, r)" by (cases a)
  from Cons.prems a have 1: "\<not> fails_to_parse k r"
    and 2: "\<forall>(l, q) \<in> set pre. \<not> fails_to_parse k q"
    by auto
  show ?case
    by (simp add: a 1 Cons.IH [OF 2 Cons.prems(2)])
qed

lemma first_failure:
  assumes "(i, r) \<in> set table" and "fails_to_parse k r"
  shows "\<exists>pre j r' post. table = pre @ (j, r') # post \<and>
           (\<forall>(l, q) \<in> set pre. \<not> fails_to_parse k q) \<and> fails_to_parse k r' \<and>
           (i, r) \<in> set ((j, r') # post)"
proof -
  from assms have "\<exists>x \<in> set table. fails_to_parse k (snd x)"
    by force
  from split_list_first_prop [OF this]
  obtain pre x post where h: "table = pre @ x # post" "fails_to_parse k (snd x)"
    "\<forall>y \<in> set pre. \<not> fails_to_parse k (snd y)"
    by blast
  obtain j r' where x: "x = (j, r')" by (cases x)
  have "(i, r) \<notin> set pre"
    using h(3) assms(2) by force
  with assms(1) h(1) have "(i, r) \<in> set ((j, r') # post)"
    by (auto simp: x)
  moreover have "\<forall>(l, q) \<in> set pre. \<not> fails_to_parse k q"
    using h(3) by auto
  ultimately show ?thesis
    using h(1,2) x by auto
qed

lemma extract_first_failure:
  assumes d: "distinct (map fst (pre @ (j, r') # post))"
    and ok: "\<forall>(l, q) \<in> set pre. \<not> fails_to_parse k q" and f: "fails_to_parse k r'"
  shows "extract_descriptors k (pre @ (j, r') # post)
     = Inl (row_error j r',
            if pre = [] then Loaded (pre @ (j, r') # post)
            else Described (map (\<lambda>(l, q). (l, computed k (no_descriptors q))) pre
                            @ map (\<lambda>(l, q). (l, no_descriptors q)) ((j, r') # post)))"
proof (cases pre)
  case Nil
  then show ?thesis
    using extract_descriptors_Cons [of j r' post k] d f by simp
next
  case (Cons a pre')
  obtain i r where a: "a = (i, r)" by (cases a)
  let ?nd = "\<lambda>(l, q). (l, no_descriptors q)"
  from ok Cons a have 1: "\<not> fails_to_parse k r"
    and 2: "\<forall>(l, q) \<in> set (map ?nd pre'). \<not> fails_to_parse k q"
    by auto
  have 3: "fails_to_parse k (no_descriptors r')"
    using f by simp
  have d': "distinct (map fst ((i, r) # pre' @ (j, r') # post))"
    using d Cons a by simp
  have "extract_descriptors k ((i, r) # pre' @ (j, r') # post)
        = loop_result k [(i, computed k (no_descriptors r))]
            (map ?nd pre' @ (j, no_descriptors r') # map ?nd post)"
    using extract_descriptors_Cons [OF d', of k] 1 by simp
  also have "\<dots> = Inl (row_error j (no_descriptors r'),
      Described ([(i, computed k (no_descriptors r))]
        @ map (\<lambda>(l, q). (l, computed k q)) (map ?nd pre')
        @ (j, no_descriptors r') # map ?nd post))"
    by (rule loop_result_first_failure [OF 2 3])
  also have "map (\<lambda>(l, q). (l, computed k q)) (map ?nd pre')
        = map (\<lambda>(l, q). (l, computed k (no_descriptors q))) pre'"
    by (induction pre') auto
  finally show ?thesis
    by (simp add: Cons a)
qed

lemma extract_failure:
  assumes idx: "map fst table = [0..<length table]"
    and mem: "(i, r) \<in> set table" and fails: "fails_to_parse k r"
  shows "\<exists>pre j r' post. table = pre @ (j, r') # post \<and>
           (\<forall>(l, q) \<in> set pre. \<not> fails_to_parse k q) \<and> fails_to_parse k r' \<and>
           j = length pre \<and> j \<le> i \<and> (i, r) \<in> set ((j, r') # post) \<and>
           extract_descriptors k table
             = Inl (row_error j r',
                    if pre = [] then Loaded table
                    else Described (map (\<lambda>(l, q). (l, computed k (no_descriptors q))) pre
                                    @ map (\<lambda>(l, q). (l, no_descriptors q)) ((j, r') # post)))"
proof -
  from first_failure [OF mem fails]
  obtain pre j r' post where tb: "table = pre @ (j, r') # post"
    and ok: "\<forall>(l, q) \<in> set pre. \<not> fails_to_parse k q" and fj: "fails_to_parse k r'"
    and tail: "(i, r) \<in> set ((j, r') # post)"
    by blast
  have d: "distinct (map fst (pre @ (j, r') # post))"
    and srt: "sorted (map fst (pre @ (j, r') # post))"
    using idx by (simp_all only: tb [symmetric] distinct_upt sorted_upt)
  have "map fst table ! length pre = j"
    by (simp add: tb nth_append)
  moreover have "length pre < length table"
    by (simp add: tb)
  ultimately have len: "j = length pre"
    by (simp add: idx)
  have le: "j \<le> i"
    using tail srt by (auto simp: sorted_append)
  have "extract_descriptors k table
      = Inl (row_error j r',
             if pre = [] then Loaded table
             else Described (map (\<lambda>(l, q). (l, computed k (no_descriptors q))) pre
                             @ map (\<lambda>(l, q). (l, no_descriptors q)) ((j, r') # post)))"
    using extract_first_failure [OF d ok fj] by (simp only: tb [symmetric])
  with tb ok fj len le tail show ?thesis
    by blast
qed

lemma extract_success:
  assumes d: "distinct (map fst table)" and ok: "extract_descriptors k table = Inr t"
  shows "(\<forall>(i, r) \<in> set table. \<not> fails_to_parse k r) \<and>
         t = (if table = [] then Loaded []
              else Described (map (\<lambda>(i, r). (i, computed k (no_descriptors r))) table))"
proof -
  have all: "\<forall>(i, r) \<in> set table. \<not> fails_to_parse k r"
  proof (rule ccontr)
    assume "\<not> (\<forall>(i, r) \<in> set table. \<not> fails_to_parse k r)"
    then obtain i r where "(i, r) \<in> set table" "fails_to_parse k r"
      by blast
    from first_failure [OF this]
    obtain pre j r' post where tb: "table = pre @ (j, r') # post"
      and p: "\<forall>(l, q) \<in> set pre. \<not> fails_to_parse k q" and fj: "fails_to_parse k r'"
      by blast
    from d have "distinct (map fst (pre @ (j, r') # post))"
      by (simp only: tb)
    from extract_first_failure [OF this p fj] ok show False
      by (simp add: tb)
  qed
  have "t = (if table = [] then Loaded []
             else Described (map (\<lambda>(i, r). (i, computed k (no_descriptors r))) table))"
  proof (cases table)
    case Nil
    then show ?thesis
      using ok by (simp add: extract_descriptors_Nil)
  next
    case (Cons a rest)
    obtain i r where a: "a = (i, r)" by (cases a)
    let ?nd = "\<lambda>(j, r). (j, no_descriptors r)"
    from all Cons a have 1: "\<not> fails_to_parse k r"
      and 2: "\<forall>(i, r) \<in> set (map ?nd rest). \<not> fails_to_parse k r"
      by auto
    from d Cons a have "distinct (map fst ((i, r) # rest))"
      by simp
    from extract_descriptors_Cons [OF this, of k] 1
    have "extract_descriptors k table
          = loop_result k [(i, computed k (no_descriptors r))] (map ?nd rest)"
      by (simp add: Cons a)
    also have "\<dots> = Inr (Described ([(i, computed k (no_descriptors r))]
                       @ map (\<lambda>(i, r). (i, computed k r)) (map ?nd rest)))"
      by (rule loop_result_all_parse [OF 2])
    also have "map (\<lambda>(i, r). (i, computed k r)) (map ?nd rest)
               = map (\<lambda>(i, r). (i, computed k (no_descriptors r))) rest"
      by (induction rest) auto
    finally show ?thesis
      using ok by (simp add: Cons a)
  qed
  with all show ?thesis
    by blast
qed

lemmas loader_defs = loader_def loc_columns_def required_columns_def enumerate_rows_def
  select_row_def field_def dropna_def reset_index_def new_BBB_class_def mark_permeant_def

lemma loader_rows:
  assumes "set required_columns \<subseteq> set (columns tmp)" and "kept_rows tmp \<noteq> []"
  shows "\<exists>table. loader tmp = Inr table \<and> map (input_part \<circ> snd) table = kept_rows tmp"
proof -
  have "map (input_part \<circ> snd) (enumerate_rows (map loaded_row (kept_rows tmp)))
        = map input_part (map snd (enumerate_rows (map loaded_row (kept_rows tmp))))"
    by simp
  also have "\<dots> = map input_part (map loaded_row (kept_rows tmp))"
    by (simp only: map_snd_enumerate_rows)
  also have "\<dots> = kept_rows tmp"
    by (simp add: comp_def input_part_loaded_row)
  finally have "map (input_part \<circ> snd) (enumerate_rows (map loaded_row (kept_rows tmp)))
        = kept_rows tmp" .
  with loader_present [OF assms] show ?thesis
    by blast
qed

section \<open>The loader: dropped rows, index and binary label\<close>

lemma kept_rows_nonempty:
  assumes "row \<in> set (cells tmp)" and "field (columns tmp) row ''BBB+/BBB-'' \<noteq> None"
  shows "select_row (columns tmp) row \<in> set (kept_rows tmp)"
  using assms by (simp add: kept_rows_def select_row_def)

text \<open>
  Claim C3. When the file has the four columns and a row with a label, the loader
  returns a table whose rows are, in the order of the file, exactly the rows whose
  \<^verbatim>\<open>BBB+/BBB-\<close> cell is not missing; its index labels are \<open>0, 1, \<dots>\<close> without gaps;
  and the \<^verbatim>\<open>BBB_class\<close> of a row is 1 if its \<^verbatim>\<open>BBB+/BBB-\<close> cell is the string
  \<^verbatim>\<open>BBB+\<close> and 0 for every other value.
\<close>

theorem loader_drops_reindexes_labels:
  assumes "set required_columns \<subseteq> set (columns tmp)"
    and "row \<in> set (cells tmp)" and "field (columns tmp) row ''BBB+/BBB-'' \<noteq> None"
  shows "\<exists>table. loader tmp = Inr table
     \<and> map (input_part \<circ> snd) table
         = filter (\<lambda>r. BBB_label r \<noteq> None) (map (select_row (columns tmp)) (cells tmp))
     \<and> map fst table = [0..<length table]
     \<and> (\<forall>(i, r) \<in> set table. BBB_class r = (if BBB_label r = Some ''BBB+'' then 1 else 0))"
proof -
  have k: "kept_rows tmp \<noteq> []"
    using kept_rows_nonempty [OF assms(2,3)] by auto
  let ?table = "enumerate_rows (map loaded_row (kept_rows tmp))"
  have 1: "loader tmp = Inr ?table"
    by (rule loader_present [OF assms(1) k])
  have "map (input_part \<circ> snd) ?table = kept_rows tmp"
    using loader_rows [OF assms(1) k] 1 by simp
  then have 2: "map (input_part \<circ> snd) ?table
         = filter (\<lambda>r. BBB_label r \<noteq> None) (map (select_row (columns tmp)) (cells tmp))"
    by (simp only: kept_rows_def)
  have 3: "map fst ?table = [0..<length ?table]"
    by (rule loader_index [OF 1])
  have 4: "\<forall>(i, r) \<in> set ?table. BBB_class r = (if BBB_label r = Some ''BBB+'' then 1 else 0)"
  proof clarify
    fix i r assume "(i, r) \<in> set ?table"
    then have "r \<in> set (map loaded_row (kept_rows tmp))"
      unfolding enumerate_rows_def by (rule set_zip_rightD)
    then show "BBB_class r = (if BBB_label r = Some ''BBB+'' then 1 else 0)"
      by (auto simp: loaded_row_def)
  qed
  from 1 2 3 4 show ?thesis
    by blast
qed

theorem loader_drops_reindexes_labels_witness:
  "set required_columns \<subseteq> set (columns example_file) \<and>
   [None, Some ''unknown'', Some ''BBB-''] \<in> set (cells example_file) \<and>
   field (columns example_file) [None, Some ''unknown'', Some ''BBB-''] ''BBB+/BBB-'' \<noteq> None \<and>
   (\<exists>table. loader example_file = Inr table
     \<and> map (input_part \<circ> snd) table
         = filter (\<lambda>r. BBB_label r \<noteq> None)
             (map (select_row (columns example_file)) (cells example_file))
     \<and> map fst table = [0..<length table]
     \<and> (\<forall>(i, r) \<in> set table. BBB_class r = (if BBB_label r = Some ''BBB+'' then 1 else 0)))"
proof -
  let ?row = "[None, Some ''unknown'', Some ''BBB-'']"
  have 1: "set required_columns \<subseteq> set (columns example_file)"
    by (simp add: required_columns_def example_file_def)
  have 2: "?row \<in> set (cells example_file)"
    by (simp add: example_file_def)
  have 3: "field (columns example_file) ?row ''BBB+/BBB-'' \<noteq> None"
    by (simp add: example_file_def field_def)
  show ?thesis
    by (intro conjI)
       (rule 1, rule 2, rule 3, rule loader_drops_reindexes_labels [OF 1 2 3])
qed

section \<open>The loader: absent columns and empty tables\<close>

text \<open>
  Claim C9. The loader ends in an exception whenever one of the four columns is absent
  from the file (the KeyError of the column selection, which names the missing
  columns) and whenever no row is left after the rows with a missing label are dropped
  (the ValueError of the assignment that creates \<^verbatim>\<open>BBB_class\<close>); in every other
  case it returns a table. The descriptor loop works on the table that the loader
  returns, so either exception comes before any feature extraction.
\<close>

theorem loader_fails_on_absent_column_or_empty_table:
  "(\<not> set required_columns \<subseteq> set (columns tmp) \<longrightarrow>
      loader tmp = Inl (KeyError (filter (\<lambda>c. c \<notin> set (columns tmp)) required_columns))) \<and>
   (set required_columns \<subseteq> set (columns tmp) \<and> kept_rows tmp = [] \<longrightarrow>
      loader tmp = Inl ValueError) \<and>
   (set required_columns \<subseteq> set (columns tmp) \<and> kept_rows tmp \<noteq> [] \<longrightarrow>
      (\<exists>table. loader tmp = Inr table \<and> length table = length (kept_rows tmp)))"
proof (intro conjI impI)
  assume "\<not> set required_columns \<subseteq> set (columns tmp)"
  then show "loader tmp
      = Inl (KeyError (filter (\<lambda>c. c \<notin> set (columns tmp)) required_columns))"
    by (rule loader_absent)
next
  assume "set required_columns \<subseteq> set (columns tmp) \<and> kept_rows tmp = []"
  then show "loader tmp = Inl ValueError"
    using loader_empty by blast
next
  assume a: "set required_columns \<subseteq> set (columns tmp) \<and> kept_rows tmp \<noteq> []"
  then have "loader tmp = Inr (enumerate_rows (map loaded_row (kept_rows tmp)))"
    using loader_present by blast
  moreover have "length (enumerate_rows (map loaded_row (kept_rows tmp)))
                 = length (kept_rows tmp)"
    by (simp add: enumerate_rows_def)
  ultimately show "\<exists>table. loader tmp = Inr table \<and> length table = length (kept_rows tmp)"
    by blast
qed

theorem loader_fails_on_absent_column_or_empty_table_witness:
  "\<not> set required_columns \<subseteq> set (columns missing_column_file) \<and>
   loader missing_column_file = Inl (KeyError [''compound_name'', ''IUPAC_name'']) \<and>
   set required_columns \<subseteq> set (columns unlabelled_file) \<and>
   kept_rows unlabelled_file = [] \<and>
   loader unlabelled_file = Inl ValueError \<and>
   set required_columns \<subseteq> set (columns example_file) \<and>
   kept_rows example_file \<noteq> [] \<and>
   (\<exists>table. loader example_file = Inr table \<and> length table = 2)"
proof -
  have 1: "\<not> set required_columns \<subseteq> set (columns missing_column_file)"
    by (simp add: required_columns_def missing_column_file_def)
  have 2: "filter (\<lambda>c. c \<notin> set (columns missing_column_file)) required_columns
           = [''compound_name'', ''IUPAC_name'']"
    by (simp add: required_columns_def missing_column_file_def)
  have 3: "set required_columns \<subseteq> set (columns unlabelled_file)"
    by (simp add: required_columns_def unlabelled_file_def)
  have 4: "kept_rows unlabelled_file = []"
    by (simp add: kept_rows_def unlabelled_file_def select_row_def field_def)
  have 5: "set required_columns \<subseteq> set (columns example_file)"
    by (simp add: required_columns_def example_file_def)
  have 6: "length (kept_rows example_file) = 2"
    by (simp add: kept_rows_def example_file_def select_row_def field_def)
  then have 7: "kept_rows example_file \<noteq> []"
    by auto
  note A = loader_fails_on_absent_column_or_empty_table [of missing_column_file]
  note B = loader_fails_on_absent_column_or_empty_table [of unlabelled_file]
  note C = loader_fails_on_absent_column_or_empty_table [of example_file]
  have a: "loader missing_column_file = Inl (KeyError [''compound_name'', ''IUPAC_name''])"
    using mp [OF conjunct1 [OF A] 1] by (simp only: 2)
  have b: "loader unlabelled_file = Inl ValueError"
    by (rule mp [OF conjunct1 [OF conjunct2 [OF B]] conjI [OF 3 4]])
  have c: "\<exists>table. loader example_file = Inr table \<and> length table = 2"
    using mp [OF conjunct2 [OF conjunct2 [OF C]] conjI [OF 5 7]] by (simp only: 6)
  show ?thesis
    by (intro conjI) (rule 1, rule a, rule 3, rule 4, rule b, rule 5, rule 7, rule c)
qed

section \<open>The descriptor loop: records that fail to parse\<close>

text \<open>
  Claim C8, as amended. When a record \<open>i\<close> of the loaded table fails to parse, the
  descriptor loop ends in an exception, so it completes no feature table. The
  exception is raised at the first record \<open>j\<close> that fails to parse, \<open>j \<le> i\<close>: a
  TypeError when its identifier is missing, an ArgumentError of the first descriptor
  call when the parser returned None. The table that the aborted loop leaves behind
  is the loaded table, without any descriptor column, when \<open>j\<close> is the first record
  of the table. Otherwise it has the six columns: the records before \<open>j\<close> hold their
  descriptors, and record \<open>j\<close> and every record after it, record \<open>i\<close> among them,
  are in the table with NaN in all six columns: no zero and no partial values.
\<close>

theorem unparseable_record_aborts_extraction:
  assumes "loader tmp = Inr table" and "(i, r) \<in> set table" and "fails_to_parse k r"
  shows "\<exists>pre j r' post.
           table = pre @ (j, r') # post \<and>
           (\<forall>(l, q) \<in> set pre. \<not> fails_to_parse k q) \<and> fails_to_parse k r' \<and>
           j = length pre \<and> j \<le> i \<and> (i, r) \<in> set ((j, r') # post) \<and>
           extract_descriptors k table
             = Inl (row_error j r',
                    if pre = [] then Loaded table
                    else Described (map (\<lambda>(l, q). (l, computed k (no_descriptors q))) pre
                                    @ map (\<lambda>(l, q). (l, no_descriptors q)) ((j, r') # post)))"
proof -
  have "map fst table = [0..<length table]"
    by (rule loader_index [OF assms(1)])
  then show ?thesis
    using assms(2,3) by (rule extract_failure)
qed

theorem unparseable_record_aborts_extraction_witness:
  "loader unparseable_file = Inr [(0, ethanol), (1, broken), (2, garbled)] \<and>
   (2, garbled) \<in> set [(0, ethanol), (1, broken), (2, garbled)] \<and>
   fails_to_parse example_rdkit garbled \<and>
   (\<exists>pre j r' post.
      [(0, ethanol), (1, broken), (2, garbled)] = pre @ (j, r') # post \<and>
      (\<forall>(l, q) \<in> set pre. \<not> fails_to_parse example_rdkit q) \<and>
      fails_to_parse example_rdkit r' \<and>
      j = length pre \<and> j \<le> 2 \<and> (2, garbled) \<in> set ((j, r') # post) \<and>
      extract_descriptors example_rdkit [(0, ethanol), (1, broken), (2, garbled)]
        = Inl (row_error j r',
               if pre = [] then Loaded [(0, ethanol), (1, broken), (2, garbled)]
               else Described
                      (map (\<lambda>(l, q). (l, computed example_rdkit (no_descriptors q))) pre
                       @ map (\<lambda>(l, q). (l, no_descriptors q)) ((j, r') # post)))) \<and>
   loader broken_first_file = Inr [(0, broken), (1, ethanol)] \<and>
   (0, broken) \<in> set [(0, broken), (1, ethanol)] \<and>
   fails_to_parse example_rdkit broken \<and>
   (\<exists>pre j r' post.
      [(0, broken), (1, ethanol)] = pre @ (j, r') # post \<and>
      (\<forall>(l, q) \<in> set pre. \<not> fails_to_parse example_rdkit q) \<and>
      fails_to_parse example_rdkit r' \<and>
      j = length pre \<and> j \<le> 0 \<and> (0, broken) \<in> set ((j, r') # post) \<and>
      extract_descriptors example_rdkit [(0, broken), (1, ethanol)]
        = Inl (row_error j r',
               if pre = [] then Loaded [(0, broken), (1, ethanol)]
               else Described
                      (map (\<lambda>(l, q). (l, computed example_rdkit (no_descriptors q))) pre
                       @ map (\<lambda>(l, q). (l, no_descriptors q)) ((j, r') # post))))"
proof -
  have 1: "loader unparseable_file = Inr [(0, ethanol), (1, broken), (2, garbled)]"
    by (simp add: unparseable_file_def loader_defs ethanol_def broken_def garbled_def)
  have 2: "(2, garbled) \<in> set [(0, ethanol), (1, broken), (2, garbled)]"
    by simp
  have 3: "fails_to_parse example_rdkit garbled"
    by (simp add: fails_to_parse_def example_rdkit_def garbled_def)
  have 4: "loader broken_first_file = Inr [(0, broken), (1, ethanol)]"
    by (simp add: broken_first_file_def loader_defs ethanol_def broken_def)
  have 5: "(0, broken) \<in> set [(0, broken), (1, ethanol)]"
    by simp
  have 6: "fails_to_parse example_rdkit broken"
    by (simp add: fails_to_parse_def example_rdkit_def broken_def)
  show ?thesis
    by (intro conjI)
       (rule 1, rule 2, rule 3, rule unparseable_record_aborts_extraction [OF 1 2 3],
        rule 4, rule 5, rule 6, rule unparseable_record_aborts_extraction [OF 4 5 6])
qed

text \<open>
  Claim C8 as stated fails for a record that fails to parse after another one: the
  third record of this table fails to parse, and the loop raises at the second, with
  an error that names the second. The third record is never given to the parser.
\<close>

theorem later_unparseable_record_counterexample:
  "loader unparseable_file = Inr [(0, ethanol), (1, broken), (2, garbled)] \<and>
   fails_to_parse example_rdkit garbled \<and>
   extract_descriptors example_rdkit [(0, ethanol), (1, broken), (2, garbled)]
     = Inl (ArgumentError 1,
            Described [(0, ethanol_featured), (1, no_descriptors broken),
                       (2, no_descriptors garbled)])"
proof -
  have 1: "loader unparseable_file = Inr [(0, ethanol), (1, broken), (2, garbled)]"
    by (simp add: unparseable_file_def loader_defs ethanol_def broken_def garbled_def)
  have 2: "fails_to_parse example_rdkit garbled"
    by (simp add: fails_to_parse_def example_rdkit_def garbled_def)
  have 3: "SMILES (no_descriptors ethanol) = Some ''CCO''"
    "SMILES (no_descriptors broken) = Some ''C((''"
    by (simp_all add: no_descriptors_def ethanol_def broken_def)
  have 4: "MolFromSmiles example_rdkit ''CCO'' = Some 0"
    "MolFromSmiles example_rdkit ''C(('' = None"
    by (simp_all add: example_rdkit_def)
  have 5: "set_descriptors example_rdkit 0 (no_descriptors ethanol) = ethanol_featured"
    by (simp add: set_descriptors_def no_descriptors_def ethanol_def ethanol_featured_def
          example_rdkit_def)
  have 6: "extract_descriptors example_rdkit [(0, ethanol), (1, broken), (2, garbled)]
     = Inl (ArgumentError 1,
            Described [(0, ethanol_featured), (1, no_descriptors broken),
                       (2, no_descriptors garbled)])"
    by (simp add: extract_descriptors_def row_step_def update_row_def 3 4 5)
  from 1 2 6 show ?thesis
    by (intro conjI)
qed

text \<open>
  When the first record is the one that fails, no descriptor column has been created,
  and cell 10 raises KeyError on the table that is left.
\<close>

lemma first_record_fails_example:
  "extract_descriptors example_rdkit [(0, broken), (1, ethanol)]
     = Inl (ArgumentError 0, Loaded [(0, broken), (1, ethanol)]) \<and>
   x_values (Loaded [(0, broken), (1, ethanol)]) = Inl (KeyError descriptors_selected)"
proof -
  have 3: "SMILES (no_descriptors broken) = Some ''C((''"
    by (simp add: no_descriptors_def broken_def)
  have 4: "MolFromSmiles example_rdkit ''C(('' = None"
    by (simp add: example_rdkit_def)
  have "extract_descriptors example_rdkit [(0, broken), (1, ethanol)]
     = Inl (ArgumentError 0, Loaded [(0, broken), (1, ethanol)])"
    by (simp add: extract_descriptors_def row_step_def 3 4)
  moreover have "x_values (Loaded [(0, broken), (1, ethanol)])
     = Inl (KeyError descriptors_selected)"
    by (simp add: x_values_def descriptors_selected_def)
  ultimately show ?thesis
    by (intro conjI)
qed

section \<open>Records without a structural identifier\<close>

text \<open>
  Claim C10. The loader drops rows by the \<^verbatim>\<open>BBB+/BBB-\<close> column alone: a row of
  the file whose SMILES cell is missing and whose label is present is a row of the
  loaded table. The descriptor loop then ends in an exception; when no earlier record
  fails to parse, it is the TypeError of the parser applied to the missing value of
  this record.
\<close>

theorem missing_identifier_reaches_parser:
  assumes cols: "set required_columns \<subseteq> set (columns tmp)"
    and row: "row \<in> set (cells tmp)"
    and smiles: "field (columns tmp) row ''SMILES'' = None"
    and label: "field (columns tmp) row ''BBB+/BBB-'' \<noteq> None"
  shows "\<exists>table i r. loader tmp = Inr table \<and> (i, r) \<in> set table \<and>
           input_part r = select_row (columns tmp) row \<and> SMILES r = None \<and>
           (\<exists>e t'. extract_descriptors k table = Inl (e, t')) \<and>
           ((\<forall>(l, q) \<in> set table. l < i \<longrightarrow> \<not> fails_to_parse k q) \<longrightarrow>
            (\<exists>t'. extract_descriptors k table = Inl (TypeError i, t')))"
proof -
  have k: "select_row (columns tmp) row \<in> set (kept_rows tmp)"
    by (rule kept_rows_nonempty [OF row label])
  then have "kept_rows tmp \<noteq> []"
    by auto
  from loader_rows [OF cols this] obtain table where t: "loader tmp = Inr table"
    and rows: "map (input_part \<circ> snd) table = kept_rows tmp"
    by blast
  from k have "select_row (columns tmp) row \<in> set (map (input_part \<circ> snd) table)"
    by (simp only: rows)
  then obtain i r where ir: "(i, r) \<in> set table" "input_part r = select_row (columns tmp) row"
    by auto
  have "SMILES (input_part r) = None"
    using smiles by (simp add: ir(2) select_row_def)
  then have s: "SMILES r = None"
    by (simp add: input_part_def)
  then have f: "fails_to_parse k r"
    by (simp add: fails_to_parse_def)
  have idx: "map fst table = [0..<length table]"
    by (rule loader_index [OF t])
  from extract_failure [OF idx ir(1) f]
  obtain j r' t' where h: "extract_descriptors k table = Inl (row_error j r', t')" "j \<le> i"
    "(j, r') \<in> set table" "fails_to_parse k r'"
    by auto
  have first: "\<exists>t'. extract_descriptors k table = Inl (TypeError i, t')"
    if "\<forall>(l, q) \<in> set table. l < i \<longrightarrow> \<not> fails_to_parse k q"
  proof -
    from that h(3,4) have "\<not> j < i" by auto
    with h(2) have "j = i" by simp
    moreover have "distinct (map fst table)"
      by (simp add: idx)
    ultimately have "r' = r"
      using h(3) ir(1) by (metis eq_key_imp_eq_value)
    then have "row_error j r' = TypeError i"
      using s \<open>j = i\<close> by (simp add: row_error_def)
    with h(1) show ?thesis by auto
  qed
  from t ir s h(1) first show ?thesis
    by blast
qed


theorem missing_identifier_reaches_parser_witness:
  "set required_columns \<subseteq> set (columns example_file) \<and>
   [None, Some ''unknown'', Some ''BBB-''] \<in> set (cells example_file) \<and>
   field (columns example_file) [None, Some ''unknown'', Some ''BBB-''] ''SMILES'' = None \<and>
   field (columns example_file) [None, Some ''unknown'', Some ''BBB-''] ''BBB+/BBB-'' \<noteq> None \<and>
   (\<exists>table i r. loader example_file = Inr table \<and> (i, r) \<in> set table \<and>
      input_part r = select_row (columns example_file) [None, Some ''unknown'', Some ''BBB-''] \<and>
      SMILES r = None \<and>
      (\<exists>e t'. extract_descriptors example_rdkit table = Inl (e, t')) \<and>
      ((\<forall>(l, q) \<in> set table. l < i \<longrightarrow> \<not> fails_to_parse example_rdkit q) \<longrightarrow>
       (\<exists>t'. extract_descriptors example_rdkit table = Inl (TypeError i, t'))))"
proof -
  let ?row = "[None, Some ''unknown'', Some ''BBB-'']"
  have 1: "set required_columns \<subseteq> set (columns example_file)"
    by (simp add: required_columns_def example_file_def)
  have 2: "?row \<in> set (cells example_file)"
    by (simp add: example_file_def)
  have 3: "field (columns example_file) ?row ''SMILES'' = None"
    by (simp add: example_file_def field_def)
  have 4: "field (columns example_file) ?row ''BBB+/BBB-'' \<noteq> None"
    by (simp add: example_file_def field_def)
  show ?thesis
    by (intro conjI)
       (rule 1, rule 2, rule 3, rule 4, rule missing_identifier_reaches_parser [OF 1 2 3 4])
qed

section \<open>The feature vectors\<close>

lemma x_values_Described:
  "x_values (Described t) = Inr (map (\<lambda>(i, r). [MolWt r, TPSA r, HBD r, HBA r, LogP r]) t)"
  by (simp add: x_values_def descriptors_selected_def descriptor_columns_def)

lemma x_values_Loaded: "x_values (Loaded t) = Inl (KeyError descriptors_selected)"
  by (simp add: x_values_def descriptors_selected_def)

lemma computed_values:
  assumes "\<not> fails_to_parse k r"
  shows "\<exists>s mol. SMILES r = Some s \<and> MolFromSmiles k s = Some mol \<and>
     MolWt (computed k (no_descriptors r)) = Some (ExactMolWt k mol) \<and>
     TPSA (computed k (no_descriptors r)) = Some (CalcTPSA k mol) \<and>
     nRotB (computed k (no_descriptors r)) = Some (real (NumRotatableBonds k mol)) \<and>
     HBD (computed k (no_descriptors r)) = Some (real (NumHDonors k mol)) \<and>
     HBA (computed k (no_descriptors r)) = Some (real (NumHAcceptors k mol)) \<and>
     LogP (computed k (no_descriptors r)) = Some (MolLogP k mol)"
  using assms
  by (auto simp: fails_to_parse_def computed_def row_step_def no_descriptors_def
        set_descriptors_def split: option.splits)

lemma example_extraction:
  "extract_descriptors example_rdkit [(0, ethanol)] = Inr (Described [(0, ethanol_featured)])"
proof -
  have 1: "SMILES (no_descriptors ethanol) = Some ''CCO''"
    by (simp add: no_descriptors_def ethanol_def)
  have 2: "MolFromSmiles example_rdkit ''CCO'' = Some 0"
    by (simp add: example_rdkit_def)
  have 3: "set_descriptors example_rdkit 0 (no_descriptors ethanol) = ethanol_featured"
    by (simp add: set_descriptors_def no_descriptors_def ethanol_def ethanol_featured_def
          example_rdkit_def)
  show ?thesis
    by (simp add: extract_descriptors_def row_step_def update_row_def 1 2 3)
qed

text \<open>
  Claim C1, as amended. When the loader and the descriptor loop have run without an
  exception, the table has the six descriptor columns and \<open>x\<close> holds one vector per
  compound, in the order of the table; the vector of a compound is the ordered tuple
  of five of its descriptors: molecular weight, topological polar surface area,
  H-bond-donor count, H-bond-acceptor count and logP. The rotatable-bond count is
  computed and stored in the table, and it is not among the selected columns.
\<close>

theorem feature_vector_is_five_selected:
  assumes "loader tmp = Inr table" and "extract_descriptors k table = Inr t"
  shows "\<exists>t' x. t = Described t' \<and> x_values t = Inr x \<and>
           list_all2 (\<lambda>(i, r) v. \<exists>s mol. SMILES r = Some s \<and> MolFromSmiles k s = Some mol \<and>
                        v = [Some (ExactMolWt k mol), Some (CalcTPSA k mol),
                             Some (real (NumHDonors k mol)),
                             Some (real (NumHAcceptors k mol)), Some (MolLogP k mol)]) table x \<and>
           list_all2 (\<lambda>(i, r) (j, q). j = i \<and>
                        (\<exists>s mol. SMILES r = Some s \<and> MolFromSmiles k s = Some mol \<and>
                           nRotB q = Some (real (NumRotatableBonds k mol)))) table t'"
proof -
  have d: "distinct (map fst table)"
    using loader_index [OF assms(1)] by simp
  let ?t' = "map (\<lambda>(i, r). (i, computed k (no_descriptors r))) table"
  from extract_success [OF d assms(2)] loader_nonempty [OF assms(1)]
  have ok: "\<forall>(i, r) \<in> set table. \<not> fails_to_parse k r"
    and t: "t = Described ?t'"
    by auto
  let ?x = "map (\<lambda>(i, r). [MolWt r, TPSA r, HBD r, HBA r, LogP r]) ?t'"
  have 1: "x_values t = Inr ?x"
    unfolding t by (rule x_values_Described)
  have x: "?x = map (\<lambda>(i, r). [MolWt (computed k (no_descriptors r)),
                  TPSA (computed k (no_descriptors r)), HBD (computed k (no_descriptors r)),
                  HBA (computed k (no_descriptors r)), LogP (computed k (no_descriptors r))]) table"
    by (induction table) auto
  have 2: "list_all2 (\<lambda>(i, r) v. \<exists>s mol. SMILES r = Some s \<and> MolFromSmiles k s = Some mol \<and>
                        v = [Some (ExactMolWt k mol), Some (CalcTPSA k mol),
                             Some (real (NumHDonors k mol)),
                             Some (real (NumHAcceptors k mol)), Some (MolLogP k mol)]) table ?x"
    unfolding x list_all2_map2 list_all2_same
  proof clarify
    fix i r assume "(i, r) \<in> set table"
    with ok have "\<not> fails_to_parse k r" by auto
    from computed_values [OF this]
    show "\<exists>s mol. SMILES r = Some s \<and> MolFromSmiles k s = Some mol \<and>
            [MolWt (computed k (no_descriptors r)), TPSA (computed k (no_descriptors r)),
             HBD (computed k (no_descriptors r)), HBA (computed k (no_descriptors r)),
             LogP (computed k (no_descriptors r))]
              = [Some (ExactMolWt k mol), Some (CalcTPSA k mol),
                 Some (real (NumHDonors k mol)),
                 Some (real (NumHAcceptors k mol)), Some (MolLogP k mol)]"
      by auto
  qed
  have R: "\<exists>s mol. SMILES r = Some s \<and> MolFromSmiles k s = Some mol \<and>
             nRotB (computed k (no_descriptors r)) = Some (real (NumRotatableBonds k mol))"
    if "(i, r) \<in> set table" for i r
  proof -
    from that ok have "\<not> fails_to_parse k r" by auto
    from computed_values [OF this] show ?thesis by auto
  qed
  have 3: "list_all2 (\<lambda>(i, r) (j, q). j = i \<and>
                        (\<exists>s mol. SMILES r = Some s \<and> MolFromSmiles k s = Some mol \<and>
                           nRotB q = Some (real (NumRotatableBonds k mol)))) table ?t'"
    unfolding list_all2_map2 list_all2_same using R by fastforce
  from t 1 2 3 show ?thesis by blast
qed

theorem feature_vector_is_five_selected_witness:
  "loader ethanol_file = Inr [(0, ethanol)] \<and>
   extract_descriptors example_rdkit [(0, ethanol)] = Inr (Described [(0, ethanol_featured)]) \<and>
   (\<exists>t' x. Described [(0, ethanol_featured)] = Described t' \<and>
      x_values (Described [(0, ethanol_featured)]) = Inr x \<and>
      list_all2 (\<lambda>(i, r) v. \<exists>s mol. SMILES r = Some s \<and>
                   MolFromSmiles example_rdkit s = Some mol \<and>
                   v = [Some (ExactMolWt example_rdkit mol), Some (CalcTPSA example_rdkit mol),
                        Some (real (NumHDonors example_rdkit mol)),
                        Some (real (NumHAcceptors example_rdkit mol)),
                        Some (MolLogP example_rdkit mol)]) [(0 :: nat, ethanol)] x \<and>
      list_all2 (\<lambda>(i, r) (j, q). j = i \<and>
                   (\<exists>s mol. SMILES r = Some s \<and> MolFromSmiles example_rdkit s = Some mol \<and>
                      nRotB q = Some (real (NumRotatableBonds example_rdkit mol))))
        [(0 :: nat, ethanol)] t')"
proof -
  have 1: "loader ethanol_file = Inr [(0, ethanol)]"
    by (simp add: ethanol_file_def loader_defs ethanol_def)
  have 2: "extract_descriptors example_rdkit [(0, ethanol)]
           = Inr (Described [(0, ethanol_featured)])"
    by (rule example_extraction)
  show ?thesis
    by (intro conjI) (rule 1, rule 2, rule feature_vector_is_five_selected [OF 1 2])
qed

text \<open>
  Claim C1 as stated fails: ethanol has the six descriptors 46, 20, 3, 1, 2 and 5 in
  the table, and its vector in \<open>x\<close> has five entries, without the 3 of the
  rotatable bonds.
\<close>

theorem six_descriptors_counterexample:
  "extract_descriptors example_rdkit [(0, ethanol)] = Inr (Described [(0, ethanol_featured)]) \<and>
   nRotB ethanol_featured = Some 3 \<and>
   x_values (Described [(0, ethanol_featured)])
     = Inr [[Some 46, Some 20, Some 1, Some 2, Some 5]]"
proof -
  have "x_values (Described [(0, ethanol_featured)])
     = Inr [[Some 46, Some 20, Some 1, Some 2, Some 5]]"
    by (simp add: x_values_Described ethanol_featured_def)
  moreover have "nRotB ethanol_featured = Some 3"
    by (simp add: ethanol_featured_def)
  ultimately show ?thesis
    using example_extraction by (intro conjI)
qed

section \<open>The split\<close>

lemma div_bounds: "0 < d \<Longrightarrow> d * (m div d) \<le> m \<and> m < d * (m div d) + d" for m d :: nat
proof -
  assume d: "0 < d"
  have "m = d * (m div d) + m mod d" by simp
  moreover have "m mod d < d" using d by simp
  ultimately show ?thesis by linarith
qed

lemma ceiling_fifth: "nat \<lceil>1 / 5 * real n\<rceil> = (n + 4) div 5"
proof -
  let ?q = "(n + 4) div 5"
  have a: "5 * ?q \<le> n + 4" and b: "n + 4 < 5 * ?q + 5"
    using div_bounds [of 5 "n + 4"] by simp_all
  have "real_of_int (int ?q) - 1 < 1 / 5 * real n"
  proof -
    from a have "real (5 * ?q) \<le> real (n + 4)" by (rule of_nat_mono)
    then show ?thesis by simp
  qed
  moreover have "1 / 5 * real n \<le> real_of_int (int ?q)"
  proof -
    from b have "n \<le> 5 * ?q" by simp
    then have "real n \<le> real (5 * ?q)" by (rule of_nat_mono)
    then show ?thesis by simp
  qed
  ultimately have "\<lceil>1 / 5 * real n\<rceil> = int ?q"
    by (rule ceiling_unique)
  then show ?thesis by simp
qed

lemma ceiling_quarter: "nat \<lceil>1 / 4 * real n\<rceil> = (n + 3) div 4"
proof -
  let ?q = "(n + 3) div 4"
  have a: "4 * ?q \<le> n + 3" and b: "n + 3 < 4 * ?q + 4"
    using div_bounds [of 4 "n + 3"] by simp_all
  have "real_of_int (int ?q) - 1 < 1 / 4 * real n"
  proof -
    from a have "real (4 * ?q) \<le> real (n + 3)" by (rule of_nat_mono)
    then show ?thesis by simp
  qed
  moreover have "1 / 4 * real n \<le> real_of_int (int ?q)"
  proof -
    from b have "n \<le> 4 * ?q" by simp
    then have "real n \<le> real (4 * ?q)" by (rule of_nat_mono)
    then show ?thesis by simp
  qed
  ultimately have "\<lceil>1 / 4 * real n\<rceil> = int ?q"
    by (rule ceiling_unique)
  then show ?thesis by simp
qed

lemma mset_map_nth_perm:
  assumes "mset p = mset [0..<length xs]"
  shows "mset (map ((!) xs) p) = mset xs"
proof -
  have "mset (map ((!) xs) p) = image_mset ((!) xs) (mset p)"
    by simp
  also have "\<dots> = image_mset ((!) xs) (mset [0..<length xs])"
    by (simp only: assms)
  also have "\<dots> = mset (map ((!) xs) [0..<length xs])"
    by simp
  also have "\<dots> = mset xs"
    by (simp only: map_nth)
  finally show ?thesis .
qed

lemma train_test_split_Inr:
  assumes p: "permutes_ranges perm"
    and r: "train_test_split perm ts xs ys = Inr (xtr, xte, ytr, yte)"
  shows "mset xtr + mset xte = mset xs" and "mset ytr + mset yte = mset ys"
    and "length xte = nat \<lceil>ts * real (length xs)\<rceil>"
    and "length xtr = length xs - nat \<lceil>ts * real (length xs)\<rceil>"
    and "length ytr = length xtr" and "length yte = length xte"
proof -
  let ?n = "length xs"
  let ?n_test = "nat \<lceil>ts * real ?n\<rceil>"
  let ?n_train = "?n - ?n_test"
  let ?te = "take ?n_test (perm ?n)"
  let ?tr = "take ?n_train (drop ?n_test (perm ?n))"
  from r have ly: "length ys = ?n" and pos: "?n_train \<noteq> 0"
    and xtr: "xtr = map ((!) xs) ?tr" and xte: "xte = map ((!) xs) ?te"
    and ytr: "ytr = map ((!) ys) ?tr" and yte: "yte = map ((!) ys) ?te"
    by (auto simp: train_test_split_def Let_def split: if_splits)
  from p have mp: "mset (perm ?n) = mset [0..<?n]"
    by (simp add: permutes_ranges_def)
  then have lp: "length (perm ?n) = ?n"
    by (metis length_upt minus_nat.diff_0 size_mset)
  have "?tr = drop ?n_test (perm ?n)"
    using lp by simp
  then have cat: "?te @ ?tr = perm ?n"
    by simp
  have "mset xte + mset xtr = mset (map ((!) xs) (?te @ ?tr))"
    by (simp add: xtr xte)
  also have "\<dots> = mset xs"
    unfolding cat using mp by (rule mset_map_nth_perm)
  finally show "mset xtr + mset xte = mset xs"
    by (simp add: add.commute)
  have "mset yte + mset ytr = mset (map ((!) ys) (?te @ ?tr))"
    by (simp add: ytr yte)
  also have "\<dots> = mset ys"
  proof -
    from mp ly have "mset (perm ?n) = mset [0..<length ys]"
      by (simp only:)
    then show ?thesis
      unfolding cat by (rule mset_map_nth_perm)
  qed
  finally show "mset ytr + mset yte = mset ys"
    by (simp add: add.commute)
  from pos have "?n_test \<le> ?n" by arith
  then show "length xte = ?n_test"
    using lp by (simp add: xte)
  show "length xtr = ?n_train"
    using lp by (simp add: xtr)
  show "length ytr = length xtr" by (simp add: xtr ytr)
  show "length yte = length xte" by (simp add: xte yte)
qed

lemma train_test_split_total:
  assumes "length ys = length xs" and "nat \<lceil>ts * real (length xs)\<rceil> < length xs"
  shows "\<exists>xtr xte ytr yte. train_test_split perm ts xs ys = Inr (xtr, xte, ytr, yte)"
  using assms by (simp add: train_test_split_def Let_def)


lemma splitter_Inr:
  assumes p: "permutes_ranges perm" and r: "splitter perm x y = Inr s"
  shows "mset (x_train s) + mset (x_valid s) + mset (x_test s) = mset x"
    and "length (x_test s) = (length x + 4) div 5"
    and "length (x_valid s) = (length x - (length x + 4) div 5 + 3) div 4"
    and "length (x_train s)
         = length x - (length x + 4) div 5 - (length x - (length x + 4) div 5 + 3) div 4"
proof -
  from r obtain x1 xte y1 yte x2 xva y2 yva
    where a: "train_test_split perm (1 / 5) x y = Inr (x1, xte, y1, yte)"
      and b: "train_test_split perm (1 / 4) x1 y1 = Inr (x2, xva, y2, yva)"
      and s: "s = \<lparr>x_train = x2, x_valid = xva, x_test = xte,
                    y_train = y2, y_valid = yva, y_test = yte\<rparr>"
    by (auto simp: splitter_def split: sum.splits)
  note A = train_test_split_Inr [OF p a] and B = train_test_split_Inr [OF p b]
  show "mset (x_train s) + mset (x_valid s) + mset (x_test s) = mset x"
    using A(1) B(1) by (simp add: s)
  show "length (x_test s) = (length x + 4) div 5"
    using A(3) unfolding ceiling_fifth by (simp add: s)
  have l1: "length x1 = length x - (length x + 4) div 5"
    using A(4) unfolding ceiling_fifth .
  show "length (x_valid s) = (length x - (length x + 4) div 5 + 3) div 4"
    using B(3) unfolding ceiling_quarter l1 by (simp add: s)
  show "length (x_train s)
         = length x - (length x + 4) div 5 - (length x - (length x + 4) div 5 + 3) div 4"
    using B(4) unfolding ceiling_quarter l1 by (simp add: s)
qed

lemma splitter_total:
  assumes p: "permutes_ranges perm" and l: "length y = length x" and n: "3 \<le> length x"
  shows "\<exists>s. splitter perm x y = Inr s"
proof -
  have "nat \<lceil>1 / 5 * real (length x)\<rceil> < length x"
    unfolding ceiling_fifth using n div_bounds [of 5 "length x + 4"] by linarith
  from train_test_split_total [OF l this]
  obtain x1 xte y1 yte where a: "train_test_split perm (1 / 5) x y = Inr (x1, xte, y1, yte)"
    by blast
  note A = train_test_split_Inr [OF p a]
  have l1: "length x1 = length x - (length x + 4) div 5"
    using A(4) unfolding ceiling_fifth .
  have "2 \<le> length x1"
    unfolding l1 using n div_bounds [of 5 "length x + 4"] by linarith
  then have "nat \<lceil>1 / 4 * real (length x1)\<rceil> < length x1"
    unfolding ceiling_quarter using div_bounds [of 4 "length x1 + 3"] by linarith
  from train_test_split_total [OF A(5) this]
  obtain x2 xva y2 yva where b: "train_test_split perm (1 / 4) x1 y1 = Inr (x2, xva, y2, yva)"
    by blast
  show ?thesis
    by (simp add: splitter_def a b)
qed

lemma train_test_split_pairs:
  assumes p: "permutes_ranges perm"
    and r: "train_test_split perm ts xs (map f xs) = Inr (xtr, xte, ytr, yte)"
  shows "ytr = map f xtr" and "yte = map f xte"
proof -
  let ?n = "length xs"
  let ?n_test = "nat \<lceil>ts * real ?n\<rceil>"
  let ?n_train = "?n - ?n_test"
  let ?te = "take ?n_test (perm ?n)"
  let ?tr = "take ?n_train (drop ?n_test (perm ?n))"
  from r have xtr: "xtr = map ((!) xs) ?tr" and xte: "xte = map ((!) xs) ?te"
    and ytr: "ytr = map ((!) (map f xs)) ?tr" and yte: "yte = map ((!) (map f xs)) ?te"
    by (auto simp: train_test_split_def Let_def split: if_splits)
  from p have "set (perm ?n) = set [0..<?n]"
    unfolding permutes_ranges_def by (metis mset_eq_setD)
  then have b: "\<forall>i \<in> set (perm ?n). i < ?n"
    by simp
  have tr: "\<forall>i \<in> set ?tr. i < ?n"
    using b by (meson in_set_dropD in_set_takeD)
  have te: "\<forall>i \<in> set ?te. i < ?n"
    using b by (meson in_set_takeD)
  show "ytr = map f xtr"
    using tr by (simp add: xtr ytr)
  show "yte = map f xte"
    using te by (simp add: xte yte)
qed

lemma splitter_pairs:
  assumes p: "permutes_ranges perm" and l: "length y = N"
    and r: "splitter perm [0..<N] y = Inr s"
  shows "y_train s = map ((!) y) (x_train s)" and "y_valid s = map ((!) y) (x_valid s)"
    and "y_test s = map ((!) y) (x_test s)"
proof -
  from r obtain x1 xte y1 yte x2 xva y2 yva
    where a: "train_test_split perm (1 / 5) [0..<N] y = Inr (x1, xte, y1, yte)"
      and b: "train_test_split perm (1 / 4) x1 y1 = Inr (x2, xva, y2, yva)"
      and s: "s = \<lparr>x_train = x2, x_valid = xva, x_test = xte,
                    y_train = y2, y_valid = yva, y_test = yte\<rparr>"
    by (auto simp: splitter_def split: sum.splits)
  have y: "y = map ((!) y) [0..<N]"
    using l map_nth [of y] by simp
  from a have a': "train_test_split perm (1 / 5) [0..<N] (map ((!) y) [0..<N])
      = Inr (x1, xte, y1, yte)"
    using y by simp
  note A = train_test_split_pairs [OF p a']
  from b have b': "train_test_split perm (1 / 4) x1 (map ((!) y) x1) = Inr (x2, xva, y2, yva)"
    by (simp only: A(1))
  note B = train_test_split_pairs [OF p b']
  show "y_train s = map ((!) y) (x_train s)" by (simp add: s B(1))
  show "y_valid s = map ((!) y) (x_valid s)" by (simp add: s B(2))
  show "y_test s = map ((!) y) (x_test s)" by (simp add: s A(2))
qed

text \<open>
  Claim C2. The rows of \<open>x\<close> are named by their indices: \<open>x\<close> is \<open>[0..<N]\<close>.
  For every seeded generator that returns permutations, and \<open>N\<close> (feature,
  label) pairs: whenever the two calls of cell 12 return, the index sets of the
  training, validation and test parts are pairwise disjoint, no index is repeated
  within a part, their union is \<open>{0..<N}\<close>, and each part of \<open>y\<close> holds the
  labels of the indices of the same part of \<open>x\<close>; the calls do return for every
  \<open>N \<ge> 3\<close> (for a smaller \<open>N\<close> a training part would be empty, and
  \<^verbatim>\<open>train_test_split\<close> raises ValueError); and for \<open>N = 100\<close> the parts have 60, 20
  and 20 rows.
\<close>

theorem splitter_partitions:
  assumes "permutes_ranges perm" and "length y = N"
  shows "(\<forall>s. splitter perm [0..<N] y = Inr s \<longrightarrow>
            set (x_train s) \<inter> set (x_valid s) = {} \<and>
            set (x_train s) \<inter> set (x_test s) = {} \<and>
            set (x_valid s) \<inter> set (x_test s) = {} \<and>
            set (x_train s) \<union> set (x_valid s) \<union> set (x_test s) = {0..<N} \<and>
            distinct (x_train s) \<and> distinct (x_valid s) \<and> distinct (x_test s) \<and>
            y_train s = map ((!) y) (x_train s) \<and> y_valid s = map ((!) y) (x_valid s) \<and>
            y_test s = map ((!) y) (x_test s)) \<and>
         (3 \<le> N \<longrightarrow> (\<exists>s. splitter perm [0..<N] y = Inr s)) \<and>
         (N = 100 \<longrightarrow>
            (\<exists>s. splitter perm [0..<N] y = Inr s \<and> length (x_train s) = 60 \<and>
                 length (x_valid s) = 20 \<and> length (x_test s) = 20))"
proof (intro conjI allI impI)
  fix s assume r: "splitter perm [0..<N] y = Inr s"
  have "mset (x_train s @ x_valid s @ x_test s) = mset [0..<N]"
    using splitter_Inr(1) [OF assms(1) r] by (simp add: add.assoc)
  then have d: "distinct (x_train s @ x_valid s @ x_test s)"
    and u: "set (x_train s @ x_valid s @ x_test s) = set [0..<N]"
    using mset_eq_imp_distinct_iff [of "x_train s @ x_valid s @ x_test s" "[0..<N]"]
      mset_eq_setD [of "x_train s @ x_valid s @ x_test s" "[0..<N]"]
    by simp_all
  from d show "set (x_train s) \<inter> set (x_valid s) = {}"
    and "set (x_train s) \<inter> set (x_test s) = {}"
    and "set (x_valid s) \<inter> set (x_test s) = {}"
    and "distinct (x_train s)" and "distinct (x_valid s)" and "distinct (x_test s)"
    by auto
  from u show "set (x_train s) \<union> set (x_valid s) \<union> set (x_test s) = {0..<N}"
    by (simp add: Un_assoc)
  show "y_train s = map ((!) y) (x_train s)" and "y_valid s = map ((!) y) (x_valid s)"
    and "y_test s = map ((!) y) (x_test s)"
    by (rule splitter_pairs [OF assms r])+
next
  assume "3 \<le> N"
  then have "3 \<le> length [0..<N]" and "length y = length [0..<N]"
    using assms(2) by (simp_all only: length_upt diff_zero)
  from splitter_total [OF assms(1) this(2,1)]
  show "\<exists>s. splitter perm [0..<N] y = Inr s" .
next
  assume n: "N = 100"
  have "3 \<le> length [0..<N]" and "length y = length [0..<N]"
    using n assms(2) by (simp_all only: length_upt)
  from splitter_total [OF assms(1) this(2,1)]
  obtain s where r: "splitter perm [0..<N] y = Inr s"
    by blast
  have "length (x_test s) = (N + 4) div 5"
    and "length (x_valid s) = (N - (N + 4) div 5 + 3) div 4"
    and "length (x_train s) = N - (N + 4) div 5 - (N - (N + 4) div 5 + 3) div 4"
    using splitter_Inr(2-4) [OF assms(1) r] by (simp_all only: length_upt diff_zero)
  then have "length (x_train s) = 60 \<and> length (x_valid s) = 20 \<and> length (x_test s) = 20"
    unfolding n by simp
  with r show "\<exists>s. splitter perm [0..<N] y = Inr s \<and> length (x_train s) = 60 \<and>
                 length (x_valid s) = 20 \<and> length (x_test s) = 20"
    by blast
qed

theorem splitter_partitions_witness:
  "permutes_ranges (\<lambda>n. rev [0..<n]) \<and> length [1, 0, 1, 1, 0 :: int] = 5 \<and> (3 :: nat) \<le> 5 \<and>
   (\<exists>s. splitter (\<lambda>n. rev [0..<n]) [0..<5] [1, 0, 1, 1, 0 :: int] = Inr s \<and>
        set (x_train s) \<inter> set (x_valid s) = {} \<and>
        set (x_train s) \<inter> set (x_test s) = {} \<and>
        set (x_valid s) \<inter> set (x_test s) = {} \<and>
        set (x_train s) \<union> set (x_valid s) \<union> set (x_test s) = {0..<5} \<and>
        distinct (x_train s) \<and> distinct (x_valid s) \<and> distinct (x_test s) \<and>
        y_train s = map ((!) [1, 0, 1, 1, 0]) (x_train s) \<and>
        y_valid s = map ((!) [1, 0, 1, 1, 0]) (x_valid s) \<and>
        y_test s = map ((!) [1, 0, 1, 1, 0]) (x_test s))"
proof -
  have 1: "permutes_ranges (\<lambda>n. rev [0..<n])"
    unfolding permutes_ranges_def by (rule allI) (rule mset_rev)
  have 2: "length [1, 0, 1, 1, 0 :: int] = 5"
    by simp
  have 3: "(3 :: nat) \<le> 5"
    by simp
  note T = splitter_partitions [OF 1 2]
  have "\<exists>s. splitter (\<lambda>n. rev [0..<n]) [0..<5] [1, 0, 1, 1, 0 :: int] = Inr s"
    by (rule mp [OF conjunct1 [OF conjunct2 [OF T]] 3])
  then obtain s where r: "splitter (\<lambda>n. rev [0..<n]) [0..<5] [1, 0, 1, 1, 0 :: int] = Inr s" ..
  note A = mp [OF spec [OF conjunct1 [OF T]] r]
  from conjI [OF r A]
  have E: "\<exists>s. splitter (\<lambda>n. rev [0..<n]) [0..<5] [1, 0, 1, 1, 0 :: int] = Inr s \<and>
        set (x_train s) \<inter> set (x_valid s) = {} \<and>
        set (x_train s) \<inter> set (x_test s) = {} \<and>
        set (x_valid s) \<inter> set (x_test s) = {} \<and>
        set (x_train s) \<union> set (x_valid s) \<union> set (x_test s) = {0..<5} \<and>
        distinct (x_train s) \<and> distinct (x_valid s) \<and> distinct (x_test s) \<and>
        y_train s = map ((!) [1, 0, 1, 1, 0]) (x_train s) \<and>
        y_valid s = map ((!) [1, 0, 1, 1, 0]) (x_valid s) \<and>
        y_test s = map ((!) [1, 0, 1, 1, 0]) (x_test s)"
    by (rule exI)
  show ?thesis
    by (rule conjI [OF 1 conjI [OF 2 conjI [OF 3 E]]])
qed

section \<open>The confusion matrix\<close>

lemma count_pairs_Nil [simp]: "count_pairs [] [] a b = 0"
  by (simp add: count_pairs_def)

lemma count_pairs_Cons [simp]:
  "count_pairs (t # ts) (p # ps) a b = (if t = a \<and> p = b then 1 else 0) + count_pairs ts ps a b"
  by (simp add: count_pairs_def)

lemma count_pairs_total:
  assumes "length y_true = length y_pred" and "set y_true \<union> set y_pred \<subseteq> {0, 1}"
  shows "count_pairs y_true y_pred 0 0 + count_pairs y_true y_pred 0 1
         + count_pairs y_true y_pred 1 0 + count_pairs y_true y_pred 1 1 = length y_true"
  using assms by (induction y_true y_pred rule: list_induct2) auto

lemma predicted_positive:
  assumes "length y_true = length y_pred" and "set y_true \<union> set y_pred \<subseteq> {0, 1}"
  shows "length (filter (\<lambda>p. p = 1) y_pred)
         = count_pairs y_true y_pred 1 1 + count_pairs y_true y_pred 0 1"
  using assms by (induction y_true y_pred rule: list_induct2) auto

lemma truly_positive:
  assumes "length y_true = length y_pred" and "set y_true \<union> set y_pred \<subseteq> {0, 1}"
  shows "length (filter (\<lambda>t. t = 1) y_true)
         = count_pairs y_true y_pred 1 1 + count_pairs y_true y_pred 1 0"
  using assms by (induction y_true y_pred rule: list_induct2) auto

lemma unique_labels_set: "set (unique_labels y_true y_pred) = set y_true \<union> set y_pred"
  by (simp add: unique_labels_def)

lemma unique_labels_distinct: "distinct (unique_labels y_true y_pred)"
  by (simp add: unique_labels_def)

lemma unique_labels_both:
  assumes "set y_true \<union> set y_pred = {0, 1}"
  shows "unique_labels y_true y_pred = [0, 1]"
proof -
  have "unique_labels y_true y_pred = sorted_list_of_set (set (y_true @ y_pred))"
    by (simp only: unique_labels_def sorted_list_of_set_sort_remdups)
  also have "\<dots> = sorted_list_of_set {0, 1 :: int}"
    using assms by simp
  also have "\<dots> = [0, 1]"
    by simp
  finally show ?thesis .
qed

lemma check_binary_01:
  assumes "length y_true = length y_pred" and "set y_true \<union> set y_pred \<subseteq> {0, 1}"
  shows "check_binary y_true y_pred"
proof -
  let ?u = "unique_labels y_true y_pred"
  have s: "set ?u \<subseteq> {0, 1}"
    using assms(2) by (simp only: unique_labels_set)
  have l: "length ?u = card (set ?u)"
    using unique_labels_distinct by (simp add: distinct_card)
  have "card (set ?u) \<le> card {0, 1 :: int}"
    using s by (intro card_mono) simp_all
  then have 1: "length ?u \<le> 2"
    using l by simp
  have 2: "1 \<in> set ?u \<or> length ?u < 2"
  proof (cases "1 \<in> set ?u")
    case True
    then show ?thesis by simp
  next
    case False
    with s have "set ?u \<subseteq> {0}" by auto
    then have "card (set ?u) \<le> card {0 :: int}"
      by (intro card_mono) simp_all
    then show ?thesis using l by simp
  qed
  from assms(1) 1 2 show ?thesis
    by (simp add: check_binary_def Let_def)
qed

lemma confusion_cells_both:
  assumes "length y_true = length y_pred" and "set y_true \<union> set y_pred = {0, 1}"
  shows "confusion_cells y_true y_pred
         = Inr (count_pairs y_true y_pred 0 0, count_pairs y_true y_pred 0 1,
                count_pairs y_true y_pred 1 0, count_pairs y_true y_pred 1 1)"
  using assms(1)
  by (simp add: confusion_cells_def confusion_matrix_def unique_labels_both [OF assms(2)] ravel_def)

lemma precision_score_01:
  assumes "length y_true = length y_pred" and "set y_true \<union> set y_pred \<subseteq> {0, 1}"
  shows "precision_score y_true y_pred
         = Inr (prf_divide (count_pairs y_true y_pred 1 1)
                  (count_pairs y_true y_pred 1 1 + count_pairs y_true y_pred 0 1))"
  by (simp add: precision_score_def check_binary_01 [OF assms] predicted_positive [OF assms])

lemma recall_score_01:
  assumes "length y_true = length y_pred" and "set y_true \<union> set y_pred \<subseteq> {0, 1}"
  shows "recall_score y_true y_pred
         = Inr (prf_divide (count_pairs y_true y_pred 1 1)
                  (count_pairs y_true y_pred 1 1 + count_pairs y_true y_pred 1 0))"
  by (simp add: recall_score_def check_binary_01 [OF assms] truly_positive [OF assms])

lemma count_pairs_pos:
  "0 < count_pairs y_true y_pred a b \<Longrightarrow> a \<in> set y_true \<and> b \<in> set y_pred"
proof -
  assume "0 < count_pairs y_true y_pred a b"
  then have "filter (\<lambda>(t, p). t = a \<and> p = b) (zip y_true y_pred) \<noteq> []"
    by (simp add: count_pairs_def)
  then obtain t p where "(t, p) \<in> set (zip y_true y_pred)" "t = a \<and> p = b"
    by (auto simp: filter_empty_conv)
  then show ?thesis
    by (auto dest: set_zip_leftD set_zip_rightD)
qed

lemma confusion_cells_single:
  assumes "set y_true \<union> set y_pred \<subseteq> {0, 1}" and "set y_true \<union> set y_pred \<noteq> {0, 1}"
  shows "confusion_cells y_true y_pred = Inl ValueError"
proof -
  have "unique_labels y_true y_pred = sorted_list_of_set (set (y_true @ y_pred))"
    by (simp only: unique_labels_def sorted_list_of_set_sort_remdups)
  then have u: "unique_labels y_true y_pred = sorted_list_of_set (set y_true \<union> set y_pred)"
    by (simp only: set_append)
  have "S = {} \<or> S = {0} \<or> S = {1}" if "S \<subseteq> {0, 1}" "S \<noteq> {0, 1}" for S :: "int set"
    using that by (cases "0 \<in> S"; cases "1 \<in> S") auto
  from this [OF assms] have "set y_true \<union> set y_pred = {} \<or> set y_true \<union> set y_pred = {0}
      \<or> set y_true \<union> set y_pred = {1}" .
  then have "unique_labels y_true y_pred = [] \<or> unique_labels y_true y_pred = [0]
      \<or> unique_labels y_true y_pred = [1]"
    unfolding u by auto
  then show ?thesis
    by (auto simp: confusion_cells_def confusion_matrix_def ravel_def)
qed

text \<open>
  Claim C6. Cell 22 calls \<^verbatim>\<open>confusion_matrix(y_true,y_pred)\<close> without
  \<^verbatim>\<open>labels=[0, 1]\<close>, and cell 24 unpacks \<^verbatim>\<open>cm.ravel()\<close> into four names. For
  true and predicted labels in \<open>{0, 1}\<close> of equal length \<open>N > 0\<close> the code meets
  the claim exactly when both classes occur among them: the four values are then
  TN, FP, FN and TP, the numbers of samples with (true, predicted) equal to (0, 0),
  (0, 1), (1, 0) and (1, 1), and their sum is \<open>N\<close>. When only one class occurs the
  code raises ValueError, where the claim has the four cells, three of them zero. Ten
  samples with six true positives, one false positive, two false negatives and one
  true negative give TN = 1, FP = 1, FN = 2, TP = 6, precision 6/7 and recall 6/8.
\<close>

theorem confusion_cells_binary:
  assumes "length y_true = length y_pred" and "set y_true \<union> set y_pred \<subseteq> {0, 1}"
    and "y_true \<noteq> []"
  shows "(set y_true \<union> set y_pred = {0, 1} \<longrightarrow>
            confusion_cells y_true y_pred
              = Inr (count_pairs y_true y_pred 0 0, count_pairs y_true y_pred 0 1,
                     count_pairs y_true y_pred 1 0, count_pairs y_true y_pred 1 1) \<and>
            count_pairs y_true y_pred 1 1 + count_pairs y_true y_pred 0 1
              + count_pairs y_true y_pred 1 0 + count_pairs y_true y_pred 0 0 = length y_true) \<and>
         (set y_true \<union> set y_pred \<noteq> {0, 1} \<longrightarrow>
            confusion_cells y_true y_pred = Inl ValueError) \<and>
         (count_pairs y_true y_pred 1 1 = 6 \<and> count_pairs y_true y_pred 0 1 = 1 \<and>
          count_pairs y_true y_pred 1 0 = 2 \<and> count_pairs y_true y_pred 0 0 = 1 \<longrightarrow>
            confusion_cells y_true y_pred = Inr (1, 1, 2, 6) \<and>
            precision_score y_true y_pred = Inr (Some (6 / 7), False) \<and>
            recall_score y_true y_pred = Inr (Some (6 / 8), False))"
proof (intro conjI impI)
  assume b: "set y_true \<union> set y_pred = {0, 1}"
  show "confusion_cells y_true y_pred
              = Inr (count_pairs y_true y_pred 0 0, count_pairs y_true y_pred 0 1,
                     count_pairs y_true y_pred 1 0, count_pairs y_true y_pred 1 1)"
    by (rule confusion_cells_both [OF assms(1) b])
  show "count_pairs y_true y_pred 1 1 + count_pairs y_true y_pred 0 1
              + count_pairs y_true y_pred 1 0 + count_pairs y_true y_pred 0 0 = length y_true"
    using count_pairs_total [OF assms(1,2)] by simp
next
  assume "set y_true \<union> set y_pred \<noteq> {0, 1}"
  then show "confusion_cells y_true y_pred = Inl ValueError"
    by (rule confusion_cells_single [OF assms(2)])
next
  assume c: "count_pairs y_true y_pred 1 1 = 6 \<and> count_pairs y_true y_pred 0 1 = 1 \<and>
          count_pairs y_true y_pred 1 0 = 2 \<and> count_pairs y_true y_pred 0 0 = 1"
  then have "0 < count_pairs y_true y_pred 1 1" and "0 < count_pairs y_true y_pred 0 0"
    by simp_all
  then have "1 \<in> set y_true" and "0 \<in> set y_true"
    by (auto dest: count_pairs_pos)
  with assms(2) have b: "set y_true \<union> set y_pred = {0, 1}"
    by auto
  show "confusion_cells y_true y_pred = Inr (1, 1, 2, 6)"
    using confusion_cells_both [OF assms(1) b] c by simp
  show "precision_score y_true y_pred = Inr (Some (6 / 7), False)"
    using precision_score_01 [OF assms(1,2)] c by (simp add: prf_divide_def)
  show "recall_score y_true y_pred = Inr (Some (6 / 8), False)"
    using recall_score_01 [OF assms(1,2)] c by (simp add: prf_divide_def)
qed

theorem confusion_cells_binary_witness:
  "length ten_true = length ten_pred \<and> set ten_true \<union> set ten_pred \<subseteq> {0, 1} \<and>
   ten_true \<noteq> [] \<and>
   count_pairs ten_true ten_pred 1 1 = 6 \<and> count_pairs ten_true ten_pred 0 1 = 1 \<and>
   count_pairs ten_true ten_pred 1 0 = 2 \<and> count_pairs ten_true ten_pred 0 0 = 1 \<and>
   confusion_cells ten_true ten_pred = Inr (1, 1, 2, 6) \<and>
   precision_score ten_true ten_pred = Inr (Some (6 / 7), False) \<and>
   recall_score ten_true ten_pred = Inr (Some (6 / 8), False)"
proof -
  have 1: "length ten_true = length ten_pred"
    by (simp add: ten_true_def ten_pred_def)
  have 2: "set ten_true \<union> set ten_pred \<subseteq> {0, 1}"
    by (simp add: ten_true_def ten_pred_def)
  have 3: "count_pairs ten_true ten_pred 1 1 = 6 \<and> count_pairs ten_true ten_pred 0 1 = 1 \<and>
           count_pairs ten_true ten_pred 1 0 = 2 \<and> count_pairs ten_true ten_pred 0 0 = 1"
    by (simp add: ten_true_def ten_pred_def)
  have 4: "ten_true \<noteq> []"
    by (simp add: ten_true_def)
  note T = confusion_cells_binary [OF 1 2 4]
  note S = mp [OF conjunct2 [OF conjunct2 [OF T]] 3]
  show ?thesis
    using 1 2 3 4 S by (simp only: simp_thms)
qed

text \<open>
  Claim C6, the failing input: two samples that are truly and predictedly 1 are binary
  labels of equal length \<open>N = 2\<close>. The claim has TN = 0, FP = 0, FN = 0 and TP = 2
  for them; the matrix that the code builds is \<open>[[2]]\<close>, and unpacking it into four
  cells raises ValueError.
\<close>

theorem single_class_counterexample:
  "length [1, 1 :: int] = length [1, 1 :: int] \<and>
   confusion_matrix [1, 1] [1, 1] = Inr [[2]] \<and>
   confusion_cells [1, 1] [1, 1] = Inl ValueError"
  by (simp add: confusion_cells_def confusion_matrix_def unique_labels_def ravel_def)

section \<open>Precision and recall\<close>

text \<open>
  Claim C7, as amended. For labels in \<open>{0, 1}\<close> of equal length \<open>N > 0\<close>, precision is
  TP / (TP + FP) and recall is TP / (TP + FN); when the denominator is zero the metric
  is 0.0, returned together with an UndefinedMetricWarning, and not NaN.
\<close>

theorem precision_recall_zero_division:
  assumes "length y_true = length y_pred" and "set y_true \<union> set y_pred \<subseteq> {0, 1}"
    and "y_true \<noteq> []"
  shows "precision_score y_true y_pred
           = Inr (if count_pairs y_true y_pred 1 1 + count_pairs y_true y_pred 0 1 = 0
                  then (Some 0, True)
                  else (Some (real (count_pairs y_true y_pred 1 1)
                              / real (count_pairs y_true y_pred 1 1
                                      + count_pairs y_true y_pred 0 1)), False)) \<and>
         recall_score y_true y_pred
           = Inr (if count_pairs y_true y_pred 1 1 + count_pairs y_true y_pred 1 0 = 0
                  then (Some 0, True)
                  else (Some (real (count_pairs y_true y_pred 1 1)
                              / real (count_pairs y_true y_pred 1 1
                                      + count_pairs y_true y_pred 1 0)), False))"
  unfolding precision_score_01 [OF assms(1,2)] recall_score_01 [OF assms(1,2)] prf_divide_def
  by (rule conjI) (rule refl)+

theorem precision_recall_zero_division_witness:
  "length [0, 1 :: int] = length [0, 0 :: int] \<and> set [0, 1 :: int] \<union> set [0, 0] \<subseteq> {0, 1} \<and>
   [0, 1 :: int] \<noteq> [] \<and>
   count_pairs [0, 1] [0, 0] 1 1 + count_pairs [0, 1] [0, 0] 0 1 = 0 \<and>
   precision_score [0, 1] [0, 0] = Inr (Some 0, True) \<and>
   recall_score [0, 1] [0, 0] = Inr (Some 0, False)"
proof -
  have 1: "length [0, 1 :: int] = length [0, 0 :: int]"
    by simp
  have 2: "set [0, 1 :: int] \<union> set [0, 0] \<subseteq> {0, 1}"
    by simp
  have 3: "[0, 1 :: int] \<noteq> []"
    by simp
  show ?thesis
    using 1 2 precision_recall_zero_division [OF 1 2 3] by simp
qed

text \<open>
  Claim C7 as stated fails: with no sample predicted 1 the precision is 0.0, and with
  no sample truly 1 the recall is 0.0; neither is NaN.
\<close>

theorem zero_denominator_counterexample:
  "count_pairs [0, 1] [0, 0] 1 1 + count_pairs [0, 1] [0, 0] 0 1 = 0 \<and>
   precision_score [0, 1] [0, 0] = Inr (Some 0, True) \<and>
   count_pairs [0, 0] [0, 1] 1 1 + count_pairs [0, 0] [0, 1] 1 0 = 0 \<and>
   recall_score [0, 0] [0, 1] = Inr (Some 0, True)"
  by (simp add: precision_score_def recall_score_def check_binary_def unique_labels_def
        prf_divide_def)

end
